theory Spec2Isabelle
  imports Main "HOL-Library.Char_ord" "HOL-Library.List_Lexorder"
begin

section \<open>Remote source resolution and caching (pkg/remote/remote.go)\<close>

text \<open>
  A shallow embedding of \<^verbatim>\<open>pkg/remote/remote.go\<close>: the parser of source references
  (\<^verbatim>\<open>Parse\<close>, \<^verbatim>\<open>ParseNormal\<close>, \<^verbatim>\<open>ParseNormalProtocol\<close>), the
  orchestrator \<^verbatim>\<open>Remote.Fetch\<close> and the entry point \<^verbatim>\<open>Remote.Locate\<close>.

  Go strings are byte sequences, so a Go string is a \<^typ>\<open>string\<close> whose characters are
  its bytes. The Go standard library functions the file calls (\<^verbatim>\<open>strings\<close>,
  \<^verbatim>\<open>path/filepath\<close>, \<^verbatim>\<open>net/url\<close>) are modelled first, for a Unix target
  (path separator \<^verbatim>\<open>/\<close>, no volume names; go-getter's \<^verbatim>\<open>helper/url.Parse\<close> is then
  \<^verbatim>\<open>net/url.Parse\<close>).
\<close>

subsection \<open>Package strings\<close>

definition HasPrefix :: "string \<Rightarrow> string \<Rightarrow> bool" where
  "HasPrefix s p = (take (length p) s = p)"

definition HasSuffix :: "string \<Rightarrow> string \<Rightarrow> bool" where
  "HasSuffix s p = (length p \<le> length s \<and> drop (length s - length p) s = p)"

text \<open>
  \<^verbatim>\<open>strings.Index(s, sep)\<close>: the offset of the first occurrence of \<open>sep\<close>, \<open>None\<close> for
  Go's \<open>-1\<close>.
\<close>

fun Index :: "string \<Rightarrow> string \<Rightarrow> nat option" where
  "Index [] sep = (if sep = [] then Some 0 else None)"
| "Index (c # cs) sep =
     (if HasPrefix (c # cs) sep then Some 0
      else (case Index cs sep of None \<Rightarrow> None | Some i \<Rightarrow> Some (Suc i)))"

text \<open>\<^verbatim>\<open>strings.LastIndex(s, sep)\<close>: the offset of the last occurrence.\<close>

fun LastIndex :: "string \<Rightarrow> string \<Rightarrow> nat option" where
  "LastIndex [] sep = (if sep = [] then Some 0 else None)"
| "LastIndex (c # cs) sep =
     (case LastIndex cs sep of
        Some i \<Rightarrow> Some (Suc i)
      | None \<Rightarrow> (if HasPrefix (c # cs) sep then Some 0 else None))"

definition Contains :: "string \<Rightarrow> string \<Rightarrow> bool" where
  "Contains s sep = (Index s sep \<noteq> None)"

text \<open>
  \<^verbatim>\<open>strings.Cut(s, sep)\<close>: the text before and after the first occurrence of \<open>sep\<close>;
  \<open>(s, "")\<close> when there is none (the \<open>found\<close> flag is never read by the callers).
\<close>

definition Cut :: "string \<Rightarrow> string \<Rightarrow> string \<times> string" where
  "Cut s sep =
     (case Index s sep of
        None \<Rightarrow> (s, [])
      | Some i \<Rightarrow> (take i s, drop (i + length sep) s))"

text \<open>
  \<^verbatim>\<open>strings.Split(s, sep)\<close> for a non-empty separator (the file only splits on
  \<^verbatim>\<open>::\<close>, \<^verbatim>\<open>://\<close> and \<^verbatim>\<open>@\<close>): the pieces between the non-overlapping occurrences of
  \<open>sep\<close>, found from the left. The counter \<open>k\<close> is the number of bytes of a separator that
  are still to be skipped.
\<close>

fun Split_go :: "string \<Rightarrow> nat \<Rightarrow> string \<Rightarrow> string list" where
  "Split_go sep k [] = [[]]"
| "Split_go sep k (c # cs) =
     (if 0 < k then Split_go sep (k - 1) cs
      else if sep \<noteq> [] \<and> HasPrefix (c # cs) sep then [] # Split_go sep (length sep - 1) cs
      else (case Split_go sep 0 cs of
              [] \<Rightarrow> [[c]]
            | p # ps \<Rightarrow> (c # p) # ps))"

definition Split :: "string \<Rightarrow> string \<Rightarrow> string list" where
  "Split s sep = Split_go sep 0 s"

text \<open>\<^verbatim>\<open>strings.Count(s, sep)\<close> for a non-empty separator.\<close>

definition Count :: "string \<Rightarrow> string \<Rightarrow> nat" where
  "Count s sep = length (Split s sep) - 1"

text \<open>\<^verbatim>\<open>strings.Join(elems, sep)\<close>.\<close>

fun Join :: "string list \<Rightarrow> string \<Rightarrow> string" where
  "Join [] sep = []"
| "Join [x] sep = x"
| "Join (x # y # ys) sep = x @ sep @ Join (y # ys) sep"

text \<open>
  \<^verbatim>\<open>strings.ToLower\<close> on the bytes \<open>A\<close> to \<open>Z\<close>. The file lowers a string only to compare it
  with \<^verbatim>\<open>s3\<close>, \<^verbatim>\<open>http\<close> and \<^verbatim>\<open>https\<close>, and \<^verbatim>\<open>net/url\<close> lowers a scheme, which
  holds ASCII letters, digits and \<^verbatim>\<open>+-.\<close> only. The two code points beyond ASCII that
  Unicode lowers to an ASCII letter give \<open>k\<close> and \<open>i\<close>, which none of the three names
  contains, so the comparison is the one Go makes.
\<close>

definition lower_byte :: "char \<Rightarrow> char" where
  "lower_byte c =
     (case map_of (zip ''ABCDEFGHIJKLMNOPQRSTUVWXYZ'' ''abcdefghijklmnopqrstuvwxyz'') c of
        Some l \<Rightarrow> l
      | None \<Rightarrow> c)"

definition ToLower :: "string \<Rightarrow> string" where
  "ToLower s = map lower_byte s"

text \<open>
  \<^verbatim>\<open>strings.NewReplacer(oldnew...).Replace(s)\<close>, the generic replacer (used as soon as one
  old string is longer than a byte): replacements are made in the order they appear in
  \<open>s\<close>, without overlapping matches, and at each offset the old strings are compared in
  argument order. \<open>k\<close> counts the bytes of a matched old string still to be skipped.
\<close>

fun replacer_lookup :: "(string \<times> string) list \<Rightarrow> string \<Rightarrow> (string \<times> string) option" where
  "replacer_lookup [] s = None"
| "replacer_lookup ((old, new) # ps) s =
     (if old \<noteq> [] \<and> HasPrefix s old then Some (old, new) else replacer_lookup ps s)"

fun Replace_go :: "(string \<times> string) list \<Rightarrow> nat \<Rightarrow> string \<Rightarrow> string" where
  "Replace_go ps k [] = []"
| "Replace_go ps k (c # cs) =
     (if 0 < k then Replace_go ps (k - 1) cs
      else (case replacer_lookup ps (c # cs) of
              Some (old, new) \<Rightarrow> new @ Replace_go ps (length old - 1) cs
            | None \<Rightarrow> c # Replace_go ps 0 cs))"

definition Replace :: "(string \<times> string) list \<Rightarrow> string \<Rightarrow> string" where
  "Replace ps s = Replace_go ps 0 s"

text \<open>\<^verbatim>\<open>strings.ReplaceAll(s, old, new)\<close> for a non-empty \<open>old\<close>.\<close>

definition ReplaceAll :: "string \<Rightarrow> string \<Rightarrow> string \<Rightarrow> string" where
  "ReplaceAll s old new = Replace [(old, new)] s"

text \<open>
  \<^verbatim>\<open>%d\<close> of a non-negative integer (\<^verbatim>\<open>fmt\<close>): its decimal digits, the last one
  first. The first argument bounds the rounds; \<open>n + 1\<close> rounds are more than \<open>n\<close> has
  digits.
\<close>

fun digits_go :: "nat \<Rightarrow> nat \<Rightarrow> string \<Rightarrow> string" where
  "digits_go 0 n acc = acc"
| "digits_go (Suc fuel) n acc =
     (let acc' = (''0123456789'' ! (n mod 10)) # acc
      in if n < 10 then acc' else digits_go fuel (n div 10) acc')"

definition Itoa :: "nat \<Rightarrow> string" where
  "Itoa n = digits_go (Suc n) n []"

subsection \<open>Package path/filepath (Unix)\<close>

text \<open>
  \<^verbatim>\<open>filepath.Clean\<close>: the shortest path name equivalent to its argument by purely
  lexical processing. Runs of separators collapse, \<^verbatim>\<open>.\<close> elements go, an inner
  \<^verbatim>\<open>..\<close> goes with the element before it, a \<^verbatim>\<open>..\<close> that begins a rooted path goes,
  and the empty result is \<^verbatim>\<open>.\<close>. The elements kept so far are held in reverse.
\<close>

fun clean_elems :: "bool \<Rightarrow> string list \<Rightarrow> string list \<Rightarrow> string list" where
  "clean_elems rooted acc [] = rev acc"
| "clean_elems rooted acc (e # es) =
     (if e = [] \<or> e = ''.'' then clean_elems rooted acc es
      else if e = ''..'' then
        (case acc of
           [] \<Rightarrow> (if rooted then clean_elems rooted [] es else clean_elems rooted [e] es)
         | a # as \<Rightarrow> (if a = ''..'' then clean_elems rooted (e # acc) es
                      else clean_elems rooted as es))
      else clean_elems rooted (e # acc) es)"

definition filepath_Clean :: "string \<Rightarrow> string" where
  "filepath_Clean p =
     (if p = [] then ''.''
      else let rooted = (hd p = CHR ''/'');
               out = (if rooted then ''/'' else []) @ Join (clean_elems rooted [] (Split p ''/'')) ''/''
           in if out = [] then ''.'' else out)"

text \<open>
  \<^verbatim>\<open>filepath.Join\<close>: empty elements are ignored, the rest are joined with the separator
  and cleaned; the result is empty when every element is.
\<close>

definition filepath_Join :: "string list \<Rightarrow> string" where
  "filepath_Join elems =
     (let es = filter (\<lambda>e. e \<noteq> []) elems
      in if es = [] then [] else filepath_Clean (Join es ''/''))"

text \<open>
  \<^verbatim>\<open>filepath.Dir\<close>: everything up to and including the last separator, cleaned.
\<close>

definition filepath_Dir :: "string \<Rightarrow> string" where
  "filepath_Dir p =
     (case LastIndex p ''/'' of
        None \<Rightarrow> filepath_Clean []
      | Some i \<Rightarrow> filepath_Clean (take (Suc i) p))"

text \<open>
  \<^verbatim>\<open>filepath.Base\<close>: the last element of the path, after trailing separators are
  removed; \<^verbatim>\<open>.\<close> for the empty path and \<^verbatim>\<open>/\<close> for a path of separators only.
\<close>

definition filepath_Base :: "string \<Rightarrow> string" where
  "filepath_Base p =
     (if p = [] then ''.''
      else let q = rev (dropWhile (\<lambda>c. c = CHR ''/'') (rev p));
               b = (case LastIndex q ''/'' of None \<Rightarrow> q | Some i \<Rightarrow> drop (Suc i) q)
           in if b = [] then ''/'' else b)"

subsection \<open>Package net/url\<close>

text \<open>
  \<^verbatim>\<open>net/url\<close> as the file uses it: \<^verbatim>\<open>url.Parse\<close> (through go-getter's
  \<^verbatim>\<open>helper/url.Parse\<close>), \<^verbatim>\<open>Userinfo.String\<close>, \<^verbatim>\<open>ParseQuery\<close>, and the methods
  \<^verbatim>\<open>Has\<close>, \<^verbatim>\<open>Set\<close> and \<^verbatim>\<open>Encode\<close> of \<^verbatim>\<open>Values\<close>.
\<close>

datatype encoding =
    encodePath
  | encodePathSegment
  | encodeHost
  | encodeZone
  | encodeUserPassword
  | encodeQueryComponent
  | encodeFragment

text \<open>
  The errors of \<^verbatim>\<open>net/url\<close>: \<^verbatim>\<open>EscapeError\<close> and \<^verbatim>\<open>InvalidHostError\<close> carry the
  offending text, \<open>InvalidPort\<close> is \<^verbatim>\<open>fmt.Errorf("invalid port %q after host", p)\<close>, and
  \<open>ErrorsNew\<close> is \<^verbatim>\<open>errors.New\<close> of a fixed message.
\<close>

datatype url_error =
    EscapeError string
  | InvalidHostError string
  | InvalidPort string
  | ErrorsNew string

text \<open>\<^verbatim>\<open>&url.Error{Op: "parse", URL: u, Err: err}\<close>, by its URL and its cause.\<close>

datatype url_Error = ParseError string url_error

text \<open>The test \<^verbatim>\<open>lo <= c && c <= hi\<close> on bytes.\<close>

definition byte_in :: "char \<Rightarrow> char \<Rightarrow> char \<Rightarrow> bool" where
  "byte_in lo hi c = (lo \<le> c \<and> c \<le> hi)"

definition is_alpha :: "char \<Rightarrow> bool" where
  "is_alpha c = (byte_in CHR ''a'' CHR ''z'' c \<or> byte_in CHR ''A'' CHR ''Z'' c)"

definition is_digit :: "char \<Rightarrow> bool" where
  "is_digit c = byte_in CHR ''0'' CHR ''9'' c"

definition ishex :: "char \<Rightarrow> bool" where
  "ishex c = (is_digit c \<or> byte_in CHR ''a'' CHR ''f'' c \<or> byte_in CHR ''A'' CHR ''F'' c)"

definition unhex :: "char \<Rightarrow> nat" where
  "unhex c =
     (if is_digit c then of_char c - of_char CHR ''0''
      else if byte_in CHR ''a'' CHR ''f'' c then of_char c - of_char CHR ''a'' + 10
      else if byte_in CHR ''A'' CHR ''F'' c then of_char c - of_char CHR ''A'' + 10
      else 0)"

definition shouldEscape :: "char \<Rightarrow> encoding \<Rightarrow> bool" where
  "shouldEscape c mode =
     (if is_alpha c \<or> is_digit c then False
      else if (mode = encodeHost \<or> mode = encodeZone)
              \<and> c \<in> set ''!$&'' \<union> {CHR 0x27} \<union> set ''()*+,;=:[]<>'' \<union> {CHR 0x22} then False
      else if c \<in> set ''-_.~'' then False
      else if c \<in> set ''$&+,/:;=?@'' then
        (case mode of
           encodePath \<Rightarrow> c = CHR ''?''
         | encodePathSegment \<Rightarrow> c = CHR ''/'' \<or> c = CHR '';'' \<or> c = CHR '','' \<or> c = CHR ''?''
         | encodeUserPassword \<Rightarrow> c = CHR ''@'' \<or> c = CHR ''/'' \<or> c = CHR ''?'' \<or> c = CHR '':''
         | encodeQueryComponent \<Rightarrow> True
         | encodeFragment \<Rightarrow> False
         | _ \<Rightarrow> True)
      else if mode = encodeFragment \<and> c \<in> set ''!()*'' then False
      else True)"

text \<open>
  \<^verbatim>\<open>unescape(s, mode)\<close>. Go checks the whole string first and decodes it afterwards;
  the check stops at the first offending offset, so one pass from the left returns the
  same error or the same decoded text.
\<close>

fun unescape :: "encoding \<Rightarrow> string \<Rightarrow> url_error + string" where
  "unescape mode [] = Inr []"
| "unescape mode (c # cs) =
     (if c = CHR ''%'' then
        (case cs of
           h1 # h2 # rest \<Rightarrow>
             if \<not> ishex h1 \<or> \<not> ishex h2 then Inl (EscapeError (take 3 (c # cs)))
             else if mode = encodeHost \<and> unhex h1 < 8 \<and> [c, h1, h2] \<noteq> ''%25''
               then Inl (EscapeError [c, h1, h2])
             else if mode = encodeZone \<and> [c, h1, h2] \<noteq> ''%25''
                     \<and> char_of (unhex h1 * 16 + unhex h2) \<noteq> CHR '' ''
                     \<and> shouldEscape (char_of (unhex h1 * 16 + unhex h2)) encodeHost
               then Inl (EscapeError [c, h1, h2])
             else (case unescape mode rest of
                     Inl e \<Rightarrow> Inl e
                   | Inr t \<Rightarrow> Inr (char_of (unhex h1 * 16 + unhex h2) # t))
         | _ \<Rightarrow> Inl (EscapeError (take 3 (c # cs))))
      else if c = CHR ''+'' then
        (case unescape mode cs of
           Inl e \<Rightarrow> Inl e
         | Inr t \<Rightarrow> Inr ((if mode = encodeQueryComponent then CHR '' '' else CHR ''+'') # t))
      else if (mode = encodeHost \<or> mode = encodeZone) \<and> of_char c < (128::nat)
              \<and> shouldEscape c encodeHost
        then Inl (InvalidHostError [c])
      else (case unescape mode cs of
              Inl e \<Rightarrow> Inl e
            | Inr t \<Rightarrow> Inr (c # t)))"

text \<open>\<^verbatim>\<open>escape(s, mode)\<close>: a space of a query component is \<^verbatim>\<open>+\<close>, every other byte
  that must be escaped is \<^verbatim>\<open>%XX\<close> in upper-case hexadecimal.\<close>

definition escape_byte :: "encoding \<Rightarrow> char \<Rightarrow> string" where
  "escape_byte mode c =
     (if c = CHR '' '' \<and> mode = encodeQueryComponent then ''+''
      else if shouldEscape c mode then
        [CHR ''%'', ''0123456789ABCDEF'' ! (of_char c div 16), ''0123456789ABCDEF'' ! (of_char c mod 16)]
      else [c])"

definition escape :: "string \<Rightarrow> encoding \<Rightarrow> string" where
  "escape s mode = concat (map (escape_byte mode) s)"

definition QueryEscape :: "string \<Rightarrow> string" where
  "QueryEscape s = escape s encodeQueryComponent"

definition QueryUnescape :: "string \<Rightarrow> url_error + string" where
  "QueryUnescape s = unescape encodeQueryComponent s"

record Userinfo =
  username :: string
  password :: string
  passwordSet :: bool

text \<open>\<^verbatim>\<open>(*Userinfo).String\<close>; \<open>None\<close> is the nil pointer.\<close>

definition Userinfo_String :: "Userinfo option \<Rightarrow> string" where
  "Userinfo_String u =
     (case u of
        None \<Rightarrow> []
      | Some i \<Rightarrow>
          escape (username i) encodeUserPassword
          @ (if passwordSet i then '':'' @ escape (password i) encodeUserPassword else []))"

text \<open>
  \<^verbatim>\<open>url.URL\<close>, by the fields this file reads and \<^verbatim>\<open>Opaque\<close>. \<^verbatim>\<open>RawPath\<close>,
  \<^verbatim>\<open>OmitHost\<close>, \<^verbatim>\<open>ForceQuery\<close>, \<^verbatim>\<open>Fragment\<close> and \<^verbatim>\<open>RawFragment\<close> are set by
  \<^verbatim>\<open>url.Parse\<close> and never read here.
\<close>

record URL =
  URL_Scheme :: string
  URL_Opaque :: string
  URL_User :: "Userinfo option"
  URL_Host :: string
  URL_Path :: string
  URL_RawQuery :: string

definition stringContainsCTLByte :: "string \<Rightarrow> bool" where
  "stringContainsCTLByte s = (\<exists>c \<in> set s. of_char c < (32::nat) \<or> of_char c = (127::nat))"

text \<open>
  \<^verbatim>\<open>getScheme(rawURL)\<close>: \<open>seen\<close> holds the bytes before the current offset, in reverse.
\<close>

fun getScheme_go :: "string \<Rightarrow> string \<Rightarrow> string \<Rightarrow> url_error + (string \<times> string)" where
  "getScheme_go rawURL seen [] = Inr ([], rawURL)"
| "getScheme_go rawURL seen (c # cs) =
     (if is_alpha c then getScheme_go rawURL (c # seen) cs
      else if is_digit c \<or> c = CHR ''+'' \<or> c = CHR ''-'' \<or> c = CHR ''.'' then
        (if seen = [] then Inr ([], rawURL) else getScheme_go rawURL (c # seen) cs)
      else if c = CHR '':'' then
        (if seen = [] then Inl (ErrorsNew ''missing protocol scheme'') else Inr (rev seen, cs))
      else Inr ([], rawURL))"

definition getScheme :: "string \<Rightarrow> url_error + (string \<times> string)" where
  "getScheme rawURL = getScheme_go rawURL [] rawURL"

definition validOptionalPort :: "string \<Rightarrow> bool" where
  "validOptionalPort port =
     (case port of
        [] \<Rightarrow> True
      | c # ds \<Rightarrow> c = CHR '':'' \<and> list_all is_digit ds)"

definition validUserinfo :: "string \<Rightarrow> bool" where
  "validUserinfo s =
     list_all (\<lambda>r. is_alpha r \<or> is_digit r \<or> r \<in> set ''-._:~!$&'' \<union> {CHR 0x27} \<union> set ''()*+,;=%@'') s"

definition parseHost :: "string \<Rightarrow> url_error + string" where
  "parseHost host =
     (let plain = unescape encodeHost host in
      if HasPrefix host ''['' then
        (case LastIndex host '']'' of
           None \<Rightarrow> Inl (ErrorsNew ''missing ']' in host'')
         | Some i \<Rightarrow>
             if \<not> validOptionalPort (drop (Suc i) host) then Inl (InvalidPort (drop (Suc i) host))
             else (case Index (take i host) ''%25'' of
                     None \<Rightarrow> plain
                   | Some zone \<Rightarrow>
                       (case unescape encodeHost (take zone host) of
                          Inl e \<Rightarrow> Inl e
                        | Inr host1 \<Rightarrow>
                            (case unescape encodeZone (drop zone (take i host)) of
                               Inl e \<Rightarrow> Inl e
                             | Inr host2 \<Rightarrow>
                                 (case unescape encodeHost (drop i host) of
                                    Inl e \<Rightarrow> Inl e
                                  | Inr host3 \<Rightarrow> Inr (host1 @ host2 @ host3))))))
      else
        (case LastIndex host '':'' of
           None \<Rightarrow> plain
         | Some i \<Rightarrow>
             if \<not> validOptionalPort (drop i host) then Inl (InvalidPort (drop i host))
             else plain))"

definition parseAuthority :: "string \<Rightarrow> url_error + (Userinfo option \<times> string)" where
  "parseAuthority authority =
     (case LastIndex authority ''@'' of
        None \<Rightarrow>
          (case parseHost authority of
             Inl e \<Rightarrow> Inl e
           | Inr host \<Rightarrow> Inr (None, host))
      | Some i \<Rightarrow>
          (case parseHost (drop (Suc i) authority) of
             Inl e \<Rightarrow> Inl e
           | Inr host \<Rightarrow>
               (let userinfo = take i authority in
                if \<not> validUserinfo userinfo then Inl (ErrorsNew ''net/url: invalid userinfo'')
                else if \<not> Contains userinfo '':'' then
                  (case unescape encodeUserPassword userinfo of
                     Inl e \<Rightarrow> Inl e
                   | Inr n \<Rightarrow> Inr (Some \<lparr>username = n, password = [], passwordSet = False\<rparr>, host))
                else
                  (case unescape encodeUserPassword (fst (Cut userinfo '':'')) of
                     Inl e \<Rightarrow> Inl e
                   | Inr n \<Rightarrow>
                       (case unescape encodeUserPassword (snd (Cut userinfo '':'')) of
                          Inl e \<Rightarrow> Inl e
                        | Inr p \<Rightarrow>
                            Inr (Some \<lparr>username = n, password = p, passwordSet = True\<rparr>, host))))))"

text \<open>
  The second half of \<^verbatim>\<open>parse(rawURL, viaRequest)\<close>, from the test
  \<^verbatim>\<open>!strings.HasPrefix(rest, "/")\<close> on, with \<open>viaRequest = false\<close>: the opaque form, the
  colon in the first segment of a relative path, the authority and the path. \<open>url\<close> is
  the URL built so far, \<open>rest\<close> what is left of the text once scheme and query are cut off.
\<close>

definition parse_rest :: "URL \<Rightarrow> string \<Rightarrow> url_error + URL" where
  "parse_rest url rest =
     (if \<not> HasPrefix rest ''/'' \<and> URL_Scheme url \<noteq> [] then
        Inr (url\<lparr>URL_Opaque := rest\<rparr>)
      else if \<not> HasPrefix rest ''/'' \<and> Contains (fst (Cut rest ''/'')) '':'' then
        Inl (ErrorsNew ''first path segment in URL cannot contain colon'')
      else if (URL_Scheme url \<noteq> [] \<or> \<not> HasPrefix rest ''///'') \<and> HasPrefix rest ''//'' then
        (let auth0 = drop 2 rest;
             authority = (case Index auth0 ''/'' of None \<Rightarrow> auth0 | Some i \<Rightarrow> take i auth0);
             rest' = (case Index auth0 ''/'' of None \<Rightarrow> [] | Some i \<Rightarrow> drop i auth0)
         in case parseAuthority authority of
              Inl e \<Rightarrow> Inl e
            | Inr (user, host) \<Rightarrow>
                (case unescape encodePath rest' of
                   Inl e \<Rightarrow> Inl e
                 | Inr p \<Rightarrow> Inr (url\<lparr>URL_User := user, URL_Host := host, URL_Path := p\<rparr>)))
      else
        (case unescape encodePath rest of
           Inl e \<Rightarrow> Inl e
         | Inr p \<Rightarrow> Inr (url\<lparr>URL_Path := p\<rparr>)))"

text \<open>
  \<^verbatim>\<open>parse(rawURL, viaRequest)\<close> with \<open>viaRequest = false\<close>, as \<^verbatim>\<open>url.Parse\<close> calls
  it: the control bytes, the URL \<^verbatim>\<open>*\<close>, the scheme (lowered), the query (a single
  question mark at the very end only sets \<^verbatim>\<open>ForceQuery\<close>), and then the rest.
\<close>

definition url_parse :: "string \<Rightarrow> url_error + URL" where
  "url_parse rawURL =
     (let url0 = \<lparr>URL_Scheme = [], URL_Opaque = [], URL_User = None, URL_Host = [],
                  URL_Path = [], URL_RawQuery = []\<rparr> in
      if stringContainsCTLByte rawURL then
        Inl (ErrorsNew ''net/url: invalid control character in URL'')
      else if rawURL = ''*'' then Inr (url0\<lparr>URL_Path := ''*''\<rparr>)
      else
        (case getScheme rawURL of
           Inl e \<Rightarrow> Inl e
         | Inr (scheme, rest) \<Rightarrow>
             if HasSuffix rest ''?'' \<and> Count rest ''?'' = 1 then
               parse_rest (url0\<lparr>URL_Scheme := ToLower scheme\<rparr>) (take (length rest - 1) rest)
             else
               parse_rest (url0\<lparr>URL_Scheme := ToLower scheme, URL_RawQuery := snd (Cut rest ''?'')\<rparr>)
                          (fst (Cut rest ''?''))))"

text \<open>
  \<^verbatim>\<open>url.Parse(rawURL)\<close>: the fragment is cut off first and checked last
  (\<^verbatim>\<open>setFragment\<close> unescapes it). \<open>Inl\<close> is the pair \<open>(nil, err)\<close> of Go.
\<close>

definition url_Parse :: "string \<Rightarrow> url_Error + URL" where
  "url_Parse rawURL =
     (let u = fst (Cut rawURL ''#''); frag = snd (Cut rawURL ''#'') in
      case url_parse u of
        Inl e \<Rightarrow> Inl (ParseError u e)
      | Inr url \<Rightarrow>
          if frag = [] then Inr url
          else (case unescape encodeFragment frag of
                  Inl e \<Rightarrow> Inl (ParseError rawURL e)
                | Inr f \<Rightarrow> Inr url))"

text \<open>
  \<^verbatim>\<open>url.Values\<close> is a Go map from a key to its list of values. It is kept as an
  association list with distinct keys in the order of first insertion; \<^verbatim>\<open>Encode\<close>
  sorts the keys, so that order is not observed.
\<close>

type_synonym Values = "(string \<times> string list) list"

text \<open>\<^verbatim>\<open>m[key] = append(m[key], value)\<close>.\<close>

definition Values_append :: "Values \<Rightarrow> string \<Rightarrow> string \<Rightarrow> Values" where
  "Values_append m key v =
     (if key \<in> fst ` set m
      then map (\<lambda>(k, vs). if k = key then (k, vs @ [v]) else (k, vs)) m
      else m @ [(key, [v])])"

text \<open>
  One round of the loop of \<^verbatim>\<open>parseQuery\<close>, on the text \<open>kv\<close> between two \<^verbatim>\<open>&\<close>: a
  pair with a semicolon, an empty pair and a pair whose key or value does not unescape
  are skipped (the error they set is dropped by \<^verbatim>\<open>Fetch\<close>). This is the parser of
  Go 1.17 and later, the releases that have the method \<^verbatim>\<open>Values.Has\<close> the file calls;
  they no longer take the semicolon for a separator.
\<close>

definition parseQuery_pair :: "Values \<Rightarrow> string \<Rightarrow> Values" where
  "parseQuery_pair m kv =
     (if Contains kv '';'' then m
      else if kv = [] then m
      else (case QueryUnescape (fst (Cut kv ''='')) of
              Inl e \<Rightarrow> m
            | Inr key \<Rightarrow>
                (case QueryUnescape (snd (Cut kv ''='')) of
                   Inl e \<Rightarrow> m
                 | Inr v \<Rightarrow> Values_append m key v)))"

text \<open>
  \<^verbatim>\<open>url.ParseQuery(query)\<close>, by the map it returns. The loop cuts the query at each
  \<^verbatim>\<open>&\<close> until nothing is left, which visits the pieces of \<open>Split query "&"\<close> in order
  (the empty piece that \<open>Split\<close> adds for an empty rest is skipped as an empty pair).
\<close>

definition ParseQuery :: "string \<Rightarrow> Values" where
  "ParseQuery query = foldl parseQuery_pair [] (Split query ''&'')"

definition Values_Has :: "Values \<Rightarrow> string \<Rightarrow> bool" where
  "Values_Has m key = (key \<in> fst ` set m)"

definition Values_Set :: "Values \<Rightarrow> string \<Rightarrow> string \<Rightarrow> Values" where
  "Values_Set m key v =
     (if key \<in> fst ` set m
      then map (\<lambda>(k, vs). if k = key then (k, [v]) else (k, vs)) m
      else m @ [(key, [v])])"

text \<open>
  \<^verbatim>\<open>Values.Encode\<close>: \<open>key=value\<close> pairs, escaped, joined by \<^verbatim>\<open>&\<close>, sorted by key (Go
  compares strings byte by byte, the lexicographic order of \<^typ>\<open>string\<close>).
\<close>

definition Values_Encode :: "Values \<Rightarrow> string" where
  "Values_Encode m =
     Join (concat (map (\<lambda>k. map (\<lambda>v. QueryEscape k @ ''='' @ QueryEscape v)
                                (case map_of m k of None \<Rightarrow> [] | Some vs \<Rightarrow> vs))
                       (sort (map fst m))))
          ''&''"

subsection \<open>Errors and results\<close>

text \<open>
  The two messages \<^verbatim>\<open>Parse\<close> gives an \<^verbatim>\<open>InvalidURLError\<close>:
  \<^verbatim>\<open>fmt.Sprintf("parse url: %v", err)\<close> for the error \<open>err\<close> of \<^verbatim>\<open>url.Parse\<close>, and
  \<^verbatim>\<open>"parse url: missing scheme - probably this is a local file path? %s"\<close> for a source.
\<close>

datatype message = parse_url url_Error | missing_scheme string

text \<open>
  Go's \<^verbatim>\<open>error\<close> values as this file makes and meets them: its own type
  \<^verbatim>\<open>InvalidURLError\<close>; \<open>Errorf\<close>, the error of \<^verbatim>\<open>fmt.Errorf\<close> with its message;
  \<open>multiError\<close>, the combined error of \<^verbatim>\<open>go.uber.org/multierr\<close>; and \<open>Foreign\<close>, any
  other error a retrieval strategy or the operating system returns, named by its
  message.
\<close>

datatype error =
    InvalidURLError message
  | Errorf string
  | multiError "error list"
  | Foreign string

text \<open>The type assertion \<^verbatim>\<open>err.(InvalidURLError)\<close>.\<close>

fun is_InvalidURLError :: "error \<Rightarrow> bool" where
  "is_InvalidURLError (InvalidURLError m) = True"
| "is_InvalidURLError e = False"

text \<open>
  \<^verbatim>\<open>multierr.Append(left, right)\<close> for two non-nil errors (both are non-nil at each
  call of this file): one combined error holding the errors of both, a combined
  argument contributing the errors it holds.
\<close>

fun multierr_Errors :: "error \<Rightarrow> error list" where
  "multierr_Errors (multiError es) = es"
| "multierr_Errors e = [e]"

definition multierr_Append :: "error \<Rightarrow> error \<Rightarrow> error" where
  "multierr_Append left right = multiError (multierr_Errors left @ multierr_Errors right)"

text \<open>
  A Go call either returns its results or panics. A result pair \<open>(*T, error)\<close> of which
  exactly one component is nil is a sum (\<open>Inl\<close> the error); a pair \<open>(string, error)\<close> is
  kept as a pair, \<open>None\<close> for the nil error.
\<close>

datatype 'a outcome = Return 'a | Panic

subsection \<open>Parsing a source reference\<close>

record Source =
  Getter :: string
  Scheme :: string
  User :: string
  Host :: string
  Dir :: string
  File :: string
  RawQuery :: string

text \<open>
  \<^verbatim>\<open>fmt.Errorf("failed to parse URL %s", path)\<close>, the error of
  \<^verbatim>\<open>ParseNormalProtocol\<close>; the specification calls it \<^verbatim>\<open>UnsupportedSchemeError\<close>.
\<close>

definition UnsupportedSchemeError :: "string \<Rightarrow> error" where
  "UnsupportedSchemeError path = Errorf (''failed to parse URL '' @ path)"

definition ParseNormalProtocol :: "string \<Rightarrow> error + string" where
  "ParseNormalProtocol path =
     (case Split path ''://'' of
        [] \<Rightarrow> Inl (UnsupportedSchemeError path)
      | part0 # parts \<Rightarrow>
          (let protocol = ToLower part0
           in if protocol \<in> set [''s3'', ''http'', ''https''] then Inr protocol
              else Inl (UnsupportedSchemeError path)))"

text \<open>
  \<^verbatim>\<open>ParseNormal\<close> reads \<^verbatim>\<open>u.Path\<close> before it looks at the error of \<^verbatim>\<open>url.Parse\<close>:
  when \<^verbatim>\<open>url.Parse\<close> fails, \<open>u\<close> is nil and the read panics.
\<close>

definition ParseNormal :: "string \<Rightarrow> (error + Source) outcome" where
  "ParseNormal path =
     (case ParseNormalProtocol path of
        Inl err \<Rightarrow> Return (Inl err)
      | Inr protocol \<Rightarrow>
          (case url_Parse path of
             Inl err \<Rightarrow> Panic
           | Inr u \<Rightarrow>
               (let dir0 = filepath_Dir (URL_Path u);
                    dir = (if dir0 = ''/'' then [] else dir0)
                in Return (Inr \<lparr>Getter = ''normal'',
                                 Scheme = URL_Scheme u,
                                 User = Userinfo_String (URL_User u),
                                 Host = URL_Host u,
                                 Dir = dir,
                                 File = filepath_Base (URL_Path u),
                                 RawQuery = URL_RawQuery u\<rparr>))))"

text \<open>
  Lines 116 to 142 of \<^verbatim>\<open>Parse\<close>: what it does once \<open>getter\<close> and \<open>goGetterSrc\<close> are
  settled.
\<close>

definition Parse_url :: "string \<Rightarrow> string \<Rightarrow> (error + Source) outcome" where
  "Parse_url getter goGetterSrc =
     (case url_Parse goGetterSrc of
        Inl err \<Rightarrow> Return (Inl (InvalidURLError (parse_url err)))
      | Inr u \<Rightarrow>
          if URL_Scheme u = [] then Return (Inl (InvalidURLError (missing_scheme goGetterSrc)))
          else
            (let dir0 = filepath_Dir (URL_Path u);
                 dir = (if dir0 = ''/'' then [] else dir0);
                 pathComponents =
                   (if length (Split (URL_Path u) ''@'') \<noteq> 2 then [dir, filepath_Base (URL_Path u)]
                    else Split (URL_Path u) ''@'')
             in Return (Inr \<lparr>Getter = getter,
                              Scheme = URL_Scheme u,
                              User = Userinfo_String (URL_User u),
                              Host = URL_Host u,
                              Dir = pathComponents ! 0,
                              File = pathComponents ! 1,
                              RawQuery = URL_RawQuery u\<rparr>)))"

definition Parse :: "string \<Rightarrow> (error + Source) outcome" where
  "Parse goGetterSrc =
     (let items = Split goGetterSrc ''::''
      in if length items = 2 then Parse_url (items ! 0) (items ! 1)
         else if length (Split goGetterSrc ''://'') = 2 then ParseNormal goGetterSrc
         else Parse_url [] goGetterSrc)"

definition IsRemote :: "string \<Rightarrow> bool outcome" where
  "IsRemote goGetterSrc =
     (case Parse goGetterSrc of
        Panic \<Rightarrow> Panic
      | Return (Inl err) \<Rightarrow> Return False
      | Return (Inr u) \<Rightarrow> Return True)"

subsection \<open>The cache key\<close>

text \<open>
  Lines 191 and 209 to 223 of \<^verbatim>\<open>Fetch\<close>: the directory part of the key is
  \<open>scheme://host/dir\<close> with \<^verbatim>\<open>:\<close> removed and \<^verbatim>\<open>//\<close>, \<^verbatim>\<open>/\<close> and \<^verbatim>\<open>.\<close> replaced;
  a non-empty query is parsed, its \<^verbatim>\<open>sshkey\<close> parameter (when there is one) set to
  \<^verbatim>\<open>redacted\<close>, encoded again, and appended after a dot.
\<close>

definition srcDir :: "Source \<Rightarrow> string" where
  "srcDir u = Scheme u @ ''://'' @ Host u @ Dir u"

definition dirKey :: "Source \<Rightarrow> string" where
  "dirKey u = Replace [('':'', []), (''//'', ''_''), (''/'', ''_''), (''.'', ''_'')] (srcDir u)"

definition paramsKey :: "string \<Rightarrow> string" where
  "paramsKey query =
     (let q0 = ParseQuery query;
          q = (if Values_Has q0 ''sshkey'' then Values_Set q0 ''sshkey'' ''redacted'' else q0)
      in ReplaceAll (Values_Encode q) ''&'' ''_'')"

definition cacheKey :: "Source \<Rightarrow> string" where
  "cacheKey u =
     (if 0 < length (RawQuery u) then dirKey u @ ''.'' @ paramsKey (RawQuery u)
      else dirKey u)"

subsection \<open>The orchestrator\<close>

text \<open>
  Everything outside the process (the disk, the network, the stores the strategies
  read) is a world of type \<open>'w\<close>. The collaborators are functions on it:

  \<^item> \<^verbatim>\<open>filesystem.FileSystem\<close>, of which \<^verbatim>\<open>Fetch\<close> and \<^verbatim>\<open>Locate\<close> call the fields
    \<^verbatim>\<open>FileExistsAt\<close> and \<^verbatim>\<open>DirectoryExistsAt\<close>. The package is not part of this file;
    the record holds the two functions, whatever is injected.
  \<^item> the interface \<^verbatim>\<open>Getter\<close>, \<^verbatim>\<open>Get(wd, src, dst) error\<close>: a strategy changes the
    world and returns its error, \<open>None\<close> for nil. The three implementations of the file
    (\<^verbatim>\<open>GoGetter\<close>, \<^verbatim>\<open>S3Getter\<close>, \<^verbatim>\<open>HttpGetter\<close>) call the go-getter client, the AWS
    SDK and \<^verbatim>\<open>net/http\<close>; the fields of \<^verbatim>\<open>Remote\<close> take any implementation, and so
    does the model.
  \<^item> \<^verbatim>\<open>os.RemoveAll\<close>, of the same shape; it is a parameter of \<^verbatim>\<open>Fetch\<close> and
    \<^verbatim>\<open>Locate\<close>.

  The logger only traces and is left out.
\<close>

record 'w FileSystem =
  FileExistsAt :: "string \<Rightarrow> 'w \<Rightarrow> bool"
  DirectoryExistsAt :: "string \<Rightarrow> 'w \<Rightarrow> bool"

type_synonym 'w Getter = "string \<Rightarrow> string \<Rightarrow> string \<Rightarrow> 'w \<Rightarrow> error option \<times> 'w"

record 'w Remote =
  Home :: string
  Getter :: "'w Getter"
  S3Getter :: "'w Getter"
  HttpGetter :: "'w Getter"
  fs :: "'w FileSystem"

text \<open>
  What a test observes of a call besides its result: each \<^verbatim>\<open>Get\<close> of a strategy, with
  the field of \<^verbatim>\<open>Remote\<close> it was called through and its arguments, and each
  \<^verbatim>\<open>os.RemoveAll\<close>, in the order they happen.
\<close>

datatype strategy = Generic | S3 | Http

datatype event = Get strategy string string string | RemoveAll string

text \<open>The invocation counter of the tests: the number of \<^verbatim>\<open>Get\<close> calls among the events.\<close>

fun is_Get :: "event \<Rightarrow> bool" where
  "is_Get (Get s wd src dst) = True"
| "is_Get (RemoveAll p) = False"

definition GetCalls :: "event list \<Rightarrow> nat" where
  "GetCalls evs = length (filter is_Get evs)"

text \<open>\<open>getterSrc\<close> as lines 251 to 260 compute it.\<close>

definition getterSrc :: "Source \<Rightarrow> string" where
  "getterSrc u =
     (let src0 = (if User u \<noteq> [] then Scheme u @ ''://'' @ User u @ ''@'' @ Host u @ Dir u
                  else Scheme u @ ''://'' @ Host u @ Dir u)
      in if 0 < length (RawQuery u) then Join [src0, RawQuery u] ''?'' else src0)"

definition getterDst :: "Source \<Rightarrow> string \<Rightarrow> string" where
  "getterDst u cacheBaseDir = filepath_Join [cacheBaseDir, cacheKey u]"

definition cacheDirPath :: "'w Remote \<Rightarrow> Source \<Rightarrow> string \<Rightarrow> string" where
  "cacheDirPath r u cacheBaseDir = filepath_Join [Home r, getterDst u cacheBaseDir]"

text \<open>
  Lines 202 to 207: one override is the base directory, none is the empty one. (Two or
  more make \<^verbatim>\<open>Fetch\<close> return its \<^verbatim>\<open>[bug]\<close> error before the base directory is used.)
\<close>

definition cacheBaseDir :: "string list \<Rightarrow> string" where
  "cacheBaseDir cacheDirOpt = (if length cacheDirOpt = 1 then cacheDirOpt ! 0 else [])"

text \<open>
  The two errors \<^verbatim>\<open>Fetch\<close> makes itself, both with \<^verbatim>\<open>fmt.Errorf\<close>: the one of
  line 206 for the number of overrides, and the one of line 239 for \<open>getterDst\<close>, which
  the specification calls \<^verbatim>\<open>CachePathConflictError\<close>.
\<close>

definition cacheDirOptBug :: "nat \<Rightarrow> error" where
  "cacheDirOptBug n = Errorf (''[bug] cacheDirOpt's length: want 0 or 1, got '' @ Itoa n)"

definition CachePathConflictError :: "string \<Rightarrow> error" where
  "CachePathConflictError dst =
     Errorf (dst @ '' is not directory. please remove it so that variant could use it for dependency caching'')"

text \<open>
  Lines 243 to 247: the entry is cached when the getter is \<^verbatim>\<open>normal\<close> and the file is
  in the cache directory, or when the cache directory exists.
\<close>

definition cached :: "'w Remote \<Rightarrow> Source \<Rightarrow> string \<Rightarrow> 'w \<Rightarrow> bool" where
  "cached r u dst w =
     (Source.Getter u = ''normal'' \<and> FileExistsAt (fs r) (filepath_Join [dst, File u]) w
      \<or> DirectoryExistsAt (fs r) dst w)"

text \<open>
  The conditions of lines 264, 271 and 276: the strategy is chosen by
  \<open>(u.Getter, u.Scheme)\<close>.
\<close>

definition dispatch :: "Source \<Rightarrow> strategy" where
  "dispatch u =
     (if Source.Getter u = ''normal'' \<and> Scheme u = ''s3'' then S3
      else if Source.Getter u = ''normal'' \<and> (Scheme u = ''https'' \<or> Scheme u = ''http'') then Http
      else Generic)"

text \<open>Lines 277 to 279: the source handed to the generic strategy.\<close>

definition genericSrc :: "Source \<Rightarrow> string" where
  "genericSrc u =
     (if Source.Getter u \<noteq> [] then Source.Getter u @ ''::'' @ getterSrc u else getterSrc u)"

text \<open>
  Lines 250 to 292: the cache miss. The S3 and the HTTP strategy are given the
  reference itself, the generic strategy the source rebuilt from the descriptor; only
  a failure of the generic strategy is followed by \<^verbatim>\<open>os.RemoveAll\<close>.
\<close>

definition download ::
  "(string \<Rightarrow> 'w \<Rightarrow> error option \<times> 'w) \<Rightarrow> 'w Remote \<Rightarrow> string \<Rightarrow> Source \<Rightarrow> string \<Rightarrow> 'w
     \<Rightarrow> (string \<times> error option) outcome \<times> 'w \<times> event list" where
  "download os_RemoveAll r path u dst w =
     (case dispatch u of
        S3 \<Rightarrow>
          (case S3Getter r (Home r) path dst w of
             (Some err, w') \<Rightarrow>
               (Return ([], Some (multierr_Append err err)), w', [Get S3 (Home r) path dst])
           | (None, w') \<Rightarrow>
               (Return (filepath_Join [dst, File u], None), w', [Get S3 (Home r) path dst]))
      | Http \<Rightarrow>
          (case HttpGetter r (Home r) path dst w of
             (Some err, w') \<Rightarrow>
               (Return ([], Some (multierr_Append err err)), w', [Get Http (Home r) path dst])
           | (None, w') \<Rightarrow>
               (Return (filepath_Join [dst, File u], None), w', [Get Http (Home r) path dst]))
      | Generic \<Rightarrow>
          (case Remote.Getter r (Home r) (genericSrc u) dst w of
             (Some err, w') \<Rightarrow>
               (case os_RemoveAll dst w' of
                  (Some rmerr, w'') \<Rightarrow>
                    (Return ([], Some (multierr_Append err rmerr)), w'',
                     [Get Generic (Home r) (genericSrc u) dst, RemoveAll dst])
                | (None, w'') \<Rightarrow>
                    (Return ([], Some err), w'',
                     [Get Generic (Home r) (genericSrc u) dst, RemoveAll dst]))
           | (None, w') \<Rightarrow>
               (Return (filepath_Join [dst, File u], None), w',
                [Get Generic (Home r) (genericSrc u) dst])))"

text \<open>
  \<^verbatim>\<open>(r *Remote) Fetch(path string, cacheDirOpt ...string) (string, error)\<close>: the result,
  the world afterwards and the events of the call.
\<close>

definition Fetch ::
  "(string \<Rightarrow> 'w \<Rightarrow> error option \<times> 'w) \<Rightarrow> 'w Remote \<Rightarrow> string \<Rightarrow> string list \<Rightarrow> 'w
     \<Rightarrow> (string \<times> error option) outcome \<times> 'w \<times> event list" where
  "Fetch os_RemoveAll r path cacheDirOpt w =
     (case Parse path of
        Panic \<Rightarrow> (Panic, w, [])
      | Return (Inl err) \<Rightarrow> (Return ([], Some err), w, [])
      | Return (Inr u) \<Rightarrow>
          if length cacheDirOpt \<noteq> 1 \<and> 0 < length cacheDirOpt then
            (Return ([], Some (cacheDirOptBug (length cacheDirOpt))), w, [])
          else
            (let dst = cacheDirPath r u (cacheBaseDir cacheDirOpt)
             in if FileExistsAt (fs r) dst w then
                  (Return ([], Some (CachePathConflictError (getterDst u (cacheBaseDir cacheDirOpt)))),
                   w, [])
                else if cached r u dst w then
                  (Return (filepath_Join [dst, File u], None), w, [])
                else download os_RemoveAll r path u dst w))"

text \<open>
  \<^verbatim>\<open>(r *Remote) Locate(urlOrPath string, cacheDirOpt ...string) (string, error)\<close>.
\<close>

definition Locate ::
  "(string \<Rightarrow> 'w \<Rightarrow> error option \<times> 'w) \<Rightarrow> 'w Remote \<Rightarrow> string \<Rightarrow> string list \<Rightarrow> 'w
     \<Rightarrow> (string \<times> error option) outcome \<times> 'w \<times> event list" where
  "Locate os_RemoveAll r urlOrPath cacheDirOpt w =
     (if FileExistsAt (fs r) urlOrPath w \<or> DirectoryExistsAt (fs r) urlOrPath w then
        (Return (urlOrPath, None), w, [])
      else
        (case Fetch os_RemoveAll r urlOrPath cacheDirOpt w of
           (Panic, w', evs) \<Rightarrow> (Panic, w', evs)
         | (Return (fetched, Some err), w', evs) \<Rightarrow>
             if is_InvalidURLError err then (Return (urlOrPath, None), w', evs)
             else (Return ([], Some err), w', evs)
         | (Return (fetched, None), w', evs) \<Rightarrow> (Return (fetched, None), w', evs)))"

subsection \<open>An in-memory world\<close>

text \<open>
  Collaborators to run the orchestrator on, in the manner of the in-memory file system
  and the counting getter of the package's tests. The world is a disk: an association
  list from a path to what \<^verbatim>\<open>os.Stat\<close> finds there.
\<close>

datatype node = IsRegular | IsDir

type_synonym disk = "(string \<times> node) list"

definition diskFS :: "disk FileSystem" where
  "diskFS = \<lparr>FileExistsAt = (\<lambda>p d. map_of d p = Some IsRegular),
             DirectoryExistsAt = (\<lambda>p d. map_of d p = Some IsDir)\<rparr>"

text \<open>A strategy that succeeds and leaves a directory at its destination.\<close>

definition mkdirGetter :: "disk Getter" where
  "mkdirGetter wd src dst d = (None, (dst, IsDir) # d)"

text \<open>A strategy that succeeds and touches nothing (the getter of the tests).\<close>

definition idleGetter :: "disk Getter" where
  "idleGetter wd src dst d = (None, d)"

text \<open>A strategy that creates its destination and then fails.\<close>

definition failingGetter :: "error \<Rightarrow> disk Getter" where
  "failingGetter err wd src dst d = (Some err, (dst, IsDir) # d)"

text \<open>\<^verbatim>\<open>os.RemoveAll\<close> on the disk, and one that is refused.\<close>

definition diskRemoveAll :: "string \<Rightarrow> disk \<Rightarrow> error option \<times> disk" where
  "diskRemoveAll path d =
     (None, filter (\<lambda>(p, n). p \<noteq> path \<and> \<not> HasPrefix p (path @ ''/'')) d)"

definition deniedRemoveAll :: "string \<Rightarrow> disk \<Rightarrow> error option \<times> disk" where
  "deniedRemoveAll path d = (Some (Foreign ''unlinkat: permission denied''), d)"

definition testRemote :: "disk Remote" where
  "testRemote = \<lparr>Home = ''/cache'', Getter = mkdirGetter, S3Getter = mkdirGetter,
                 HttpGetter = mkdirGetter, fs = diskFS\<rparr>"

definition failingRemote :: "error \<Rightarrow> disk Remote" where
  "failingRemote err = \<lparr>Home = ''/cache'', Getter = failingGetter err, S3Getter = failingGetter err,
                        HttpGetter = failingGetter err, fs = diskFS\<rparr>"

definition idleRemote :: "disk Remote" where
  "idleRemote = \<lparr>Home = ''/cache'', Getter = idleGetter, S3Getter = idleGetter,
                 HttpGetter = idleGetter, fs = diskFS\<rparr>"

section \<open>Properties\<close>

subsection \<open>Unfolding Fetch\<close>

lemma Fetch_parsed:
  "Parse path = Return (Inr u) \<Longrightarrow>
   Fetch rm r path cacheDirOpt w =
     (if length cacheDirOpt \<noteq> 1 \<and> 0 < length cacheDirOpt then
        (Return ([], Some (cacheDirOptBug (length cacheDirOpt))), w, [])
      else if FileExistsAt (fs r) (cacheDirPath r u (cacheBaseDir cacheDirOpt)) w then
        (Return ([], Some (CachePathConflictError (getterDst u (cacheBaseDir cacheDirOpt)))), w, [])
      else if cached r u (cacheDirPath r u (cacheBaseDir cacheDirOpt)) w then
        (Return (filepath_Join [cacheDirPath r u (cacheBaseDir cacheDirOpt), File u], None), w, [])
      else download rm r path u (cacheDirPath r u (cacheBaseDir cacheDirOpt)) w)"
  by (simp add: Fetch_def Let_def)

lemma Fetch_at_most_one_override:
  assumes "Parse path = Return (Inr u)" and "length cacheDirOpt \<le> 1"
  shows "Fetch rm r path cacheDirOpt w =
     (if FileExistsAt (fs r) (cacheDirPath r u (cacheBaseDir cacheDirOpt)) w then
        (Return ([], Some (CachePathConflictError (getterDst u (cacheBaseDir cacheDirOpt)))), w, [])
      else if cached r u (cacheDirPath r u (cacheBaseDir cacheDirOpt)) w then
        (Return (filepath_Join [cacheDirPath r u (cacheBaseDir cacheDirOpt), File u], None), w, [])
      else download rm r path u (cacheDirPath r u (cacheBaseDir cacheDirOpt)) w)"
proof -
  from assms(2) have "\<not> (length cacheDirOpt \<noteq> 1 \<and> 0 < length cacheDirOpt)"
    by (cases cacheDirOpt) auto
  then show ?thesis
    unfolding Fetch_parsed [OF assms(1)] by (rule if_not_P)
qed

lemma Parse_s3_example:
  "Parse ''s3://my-bucket/path/to/object.yaml''
     = Return (Inr \<lparr>Source.Getter = ''normal'', Scheme = ''s3'', User = [], Host = ''my-bucket'',
                     Dir = ''/path/to'', File = ''object.yaml'', RawQuery = []\<rparr>)"
  by code_simp

lemma diskRemoveAll_removes:
  "\<not> (\<exists>p v v'. diskRemoveAll p v = (None, v') \<and> DirectoryExistsAt diskFS p v')"
proof -
  have "map_of (filter (\<lambda>(q, n). q \<noteq> p \<and> \<not> HasPrefix q (p @ ''/'')) v) p = None" for p and v :: disk
    by (induction v) auto
  then show ?thesis
    by (auto simp add: diskRemoveAll_def diskFS_def)
qed

lemma Parse_git_descriptor:
  "Parse ''git::https://example.com/org/repo.git//sub@file.yaml?ref=v1.0''
     = Return (Inr \<lparr>Source.Getter = ''git'', Scheme = ''https'', User = [], Host = ''example.com'',
                     Dir = ''/org/repo.git//sub'', File = ''file.yaml'', RawQuery = ''ref=v1.0''\<rparr>)"
  by code_simp

lemma Parse_fallthrough:
  "length (Split ref ''::'') \<noteq> 2 \<Longrightarrow> length (Split ref ''://'') \<noteq> 2 \<Longrightarrow> Parse ref = Parse_url [] ref"
  by (simp add: Parse_def Let_def)

lemma Parse_url_no_scheme:
  "(case url_Parse src of Inl e \<Rightarrow> True | Inr u \<Rightarrow> URL_Scheme u = [])
   \<Longrightarrow> \<exists>m. Parse_url getter src = Return (Inl (InvalidURLError m))"
  by (cases "url_Parse src") (simp_all add: Parse_url_def)

subsection \<open>The query of the cache key\<close>

lemma Split_go_nonempty: "Split_go sep k s \<noteq> []"
  by (induction s arbitrary: k) (auto split: list.splits)

lemma Split_char_append:
  "Split (x @ c # y) [c] = Split x [c] @ Split y [c]"
proof -
  have "Split_go [c] 0 (x @ c # y) = Split_go [c] 0 x @ Split_go [c] 0 y"
  proof (induction x)
    case Nil
    show ?case by (simp add: HasPrefix_def)
  next
    case (Cons d x)
    show ?case
    proof (cases "d = c")
      case True
      with Cons show ?thesis by (simp add: HasPrefix_def)
    next
      case False
      obtain p ps where ps: "Split_go [c] 0 x = p # ps"
        using Split_go_nonempty [of "[c]" 0 x] by (cases "Split_go [c] 0 x") auto
      with False Cons show ?thesis by (simp add: HasPrefix_def)
    qed
  qed
  then show ?thesis by (simp add: Split_def)
qed

lemma Split_char_none: "c \<notin> set s \<Longrightarrow> Split s [c] = [s]"
proof -
  assume "c \<notin> set s"
  then have "Split_go [c] 0 s = [s]"
    by (induction s) (auto simp add: HasPrefix_def)
  then show ?thesis by (simp add: Split_def)
qed

lemma Index_char_none: "c \<notin> set s \<Longrightarrow> Index s [c] = None"
  by (induction s) (auto simp add: HasPrefix_def)

lemma Contains_char: "c \<notin> set s \<Longrightarrow> \<not> Contains s [c]"
  by (simp add: Contains_def Index_char_none)

lemma Cut_sshkey: "Cut (''sshkey='' @ v) ''='' = (''sshkey'', v)"
  by (simp add: Cut_def HasPrefix_def)

lemma QueryUnescape_sshkey: "QueryUnescape ''sshkey'' = Inr ''sshkey''"
  by (simp add: QueryUnescape_def)

lemma Split_around:
  assumes "CHR ''&'' \<notin> set kv"
    and "pre = [] \<or> last pre = CHR ''&''"
    and "post = [] \<or> hd post = CHR ''&''"
  shows "Split (pre @ kv @ post) ''&''
           = (if pre = [] then [] else Split (butlast pre) ''&'') @ [kv]
             @ (if post = [] then [] else Split (tl post) ''&'')"
proof -
  have post: "Split (kv @ post) ''&'' = [kv] @ (if post = [] then [] else Split (tl post) ''&'')"
  proof (cases post)
    case Nil
    with assms(1) show ?thesis by (simp add: Split_char_none)
  next
    case (Cons c cs)
    with assms(3) have "c = CHR ''&''" by simp
    with Cons assms(1) show ?thesis
      using Split_char_append [of kv "CHR ''&''" cs] by (simp add: Split_char_none)
  qed
  show ?thesis
  proof (cases "pre = []")
    case True
    with post show ?thesis by simp
  next
    case False
    with assms(2) have "pre = butlast pre @ [CHR ''&'']"
      by (metis append_butlast_last_id)
    then have "pre @ kv @ post = butlast pre @ CHR ''&'' # (kv @ post)"
      by (metis append_Cons append_Nil append_assoc)
    then have "Split (pre @ kv @ post) ''&'' = Split (butlast pre) ''&'' @ Split (kv @ post) ''&''"
      using Split_char_append [of "butlast pre" "CHR ''&''" "kv @ post"] by metis
    with post False show ?thesis by simp
  qed
qed

lemma parseQuery_pair_sshkey:
  assumes "kv = ''sshkey='' @ v" and "CHR '';'' \<notin> set v" and "QueryUnescape v = Inr w"
  shows "parseQuery_pair m kv = Values_append m ''sshkey'' w"
proof -
  from assms(1,2) have "CHR '';'' \<notin> set kv" by simp
  then have c: "\<not> Contains kv '';''" by (rule Contains_char)
  from assms(1) have n: "kv \<noteq> []" by simp
  from assms(1) have "Cut kv ''='' = (''sshkey'', v)" by (simp only: Cut_sshkey)
  with c n assms(3) show ?thesis
    by (simp add: parseQuery_pair_def QueryUnescape_sshkey)
qed

text \<open>Two maps with the same keys that agree on the values of every key but one.\<close>

lemma alike_keys:
  "list_all2 (\<lambda>a b. fst a = fst b \<and> (fst a \<noteq> key \<longrightarrow> snd a = snd b)) m m' \<Longrightarrow> map fst m = map fst m'"
  by (induction rule: list_all2_induct) auto

lemma Values_append_alike:
  assumes "list_all2 (\<lambda>a b. fst a = fst b \<and> (fst a \<noteq> key \<longrightarrow> snd a = snd b)) m m'"
  shows "list_all2 (\<lambda>a b. fst a = fst b \<and> (fst a \<noteq> key \<longrightarrow> snd a = snd b))
           (Values_append m k v) (Values_append m' k v)"
proof -
  from assms have keys: "fst ` set m = fst ` set m'"
    using alike_keys [of key m m'] by (metis set_map)
  show ?thesis
  proof (cases "k \<in> fst ` set m")
    case True
    with keys have "k \<in> fst ` set m'" by simp
    with True show ?thesis
      unfolding Values_append_def
      by (auto simp add: list_all2_map1 list_all2_map2 split_beta intro: list_all2_mono [OF assms])
  next
    case False
    with keys have "k \<notin> fst ` set m'" by simp
    with False assms show ?thesis
      unfolding Values_append_def by (auto intro: list_all2_appendI)
  qed
qed

lemma parseQuery_pair_alike:
  assumes "list_all2 (\<lambda>a b. fst a = fst b \<and> (fst a \<noteq> key \<longrightarrow> snd a = snd b)) m m'"
  shows "list_all2 (\<lambda>a b. fst a = fst b \<and> (fst a \<noteq> key \<longrightarrow> snd a = snd b))
           (parseQuery_pair m kv) (parseQuery_pair m' kv)"
  using assms Values_append_alike [OF assms]
  by (simp add: parseQuery_pair_def split: sum.splits)

lemma foldl_parseQuery_pair_alike:
  "list_all2 (\<lambda>a b. fst a = fst b \<and> (fst a \<noteq> key \<longrightarrow> snd a = snd b)) m m'
   \<Longrightarrow> list_all2 (\<lambda>a b. fst a = fst b \<and> (fst a \<noteq> key \<longrightarrow> snd a = snd b))
         (foldl parseQuery_pair m kvs) (foldl parseQuery_pair m' kvs)"
  by (induction kvs arbitrary: m m') (simp_all add: parseQuery_pair_alike)

lemma Values_append_key_alike:
  "list_all2 (\<lambda>a b. fst a = fst b \<and> (fst a \<noteq> key \<longrightarrow> snd a = snd b))
     (Values_append m key w1) (Values_append m key w2)"
  unfolding Values_append_def
  by (auto simp add: list_all2_map1 list_all2_map2 split_beta list_all2_same intro: list_all2_appendI)

lemma Values_Set_alike:
  assumes "list_all2 (\<lambda>a b. fst a = fst b \<and> (fst a \<noteq> key \<longrightarrow> snd a = snd b)) m m'"
  shows "Values_Has m key = Values_Has m' key"
    and "Values_Has m key \<Longrightarrow> Values_Set m key x = Values_Set m' key x"
proof -
  from assms have keys: "fst ` set m = fst ` set m'"
    using alike_keys [of key m m'] by (metis set_map)
  then show "Values_Has m key = Values_Has m' key"
    by (simp add: Values_Has_def)
  from assms have "map (\<lambda>(k, vs). if k = key then (k, [x]) else (k, vs)) m
                 = map (\<lambda>(k, vs). if k = key then (k, [x]) else (k, vs)) m'"
    by (induction rule: list_all2_induct) (auto simp add: split_beta prod_eq_iff)
  with keys show "Values_Has m key \<Longrightarrow> Values_Set m key x = Values_Set m' key x"
    by (simp add: Values_Has_def Values_Set_def)
qed

lemma Values_append_keys:
  "fst ` set (Values_append m k v) = insert k (fst ` set m)"
proof -
  have "map fst (map (\<lambda>(k', vs). if k' = k then (k', vs @ [v]) else (k', vs)) m) = map fst m"
    by (induction m) auto
  then have "fst ` set (map (\<lambda>(k', vs). if k' = k then (k', vs @ [v]) else (k', vs)) m) = fst ` set m"
    by (metis set_map)
  then show ?thesis
    by (auto simp add: Values_append_def)
qed

lemma Values_append_Has: "Values_Has (Values_append m k v) k"
  by (simp add: Values_Has_def Values_append_keys)

lemma Values_append_keeps: "Values_Has m key \<Longrightarrow> Values_Has (Values_append m k v) key"
  by (simp add: Values_Has_def Values_append_keys)

lemma foldl_parseQuery_pair_keeps:
  "Values_Has m key \<Longrightarrow> Values_Has (foldl parseQuery_pair m kvs) key"
  by (induction kvs arbitrary: m)
     (simp_all add: parseQuery_pair_def Values_append_keeps split: sum.splits)

lemma paramsKey_sshkey:
  assumes "pre = [] \<or> last pre = CHR ''&''"
    and "post = [] \<or> hd post = CHR ''&''"
    and "CHR ''&'' \<notin> set v1 \<union> set v2"
    and "CHR '';'' \<notin> set v1 \<union> set v2"
    and "QueryUnescape v1 = Inr w1"
    and "QueryUnescape v2 = Inr w2"
  shows "paramsKey (pre @ ''sshkey='' @ v1 @ post) = paramsKey (pre @ ''sshkey='' @ v2 @ post)"
proof -
  define A where "A = (if pre = [] then [] else Split (butlast pre) ''&'')"
  define B where "B = (if post = [] then [] else Split (tl post) ''&'')"
  define m0 where "m0 = foldl parseQuery_pair [] A"
  have q: "ParseQuery (pre @ ''sshkey='' @ v @ post)
             = foldl parseQuery_pair (Values_append m0 ''sshkey'' w) B"
    if "CHR ''&'' \<notin> set v" and "CHR '';'' \<notin> set v" and "QueryUnescape v = Inr w" for v w
  proof -
    define kv where "kv = ''sshkey='' @ v"
    from that(1) have "CHR ''&'' \<notin> set kv" by (simp add: kv_def)
    from Split_around [OF this assms(1,2)]
    have "Split (pre @ kv @ post) ''&'' = A @ [kv] @ B"
      by (simp only: A_def B_def)
    then have "ParseQuery (pre @ kv @ post) = foldl parseQuery_pair (parseQuery_pair m0 kv) B"
      by (simp add: ParseQuery_def m0_def)
    also have "parseQuery_pair m0 kv = Values_append m0 ''sshkey'' w"
      using kv_def that(2,3) by (rule parseQuery_pair_sshkey)
    finally show ?thesis
      by (simp add: kv_def)
  qed
  let ?q1 = "ParseQuery (pre @ ''sshkey='' @ v1 @ post)"
  let ?q2 = "ParseQuery (pre @ ''sshkey='' @ v2 @ post)"
  have q1: "?q1 = foldl parseQuery_pair (Values_append m0 ''sshkey'' w1) B"
    by (rule q) (use assms(3-5) in simp_all)
  have q2: "?q2 = foldl parseQuery_pair (Values_append m0 ''sshkey'' w2) B"
    by (rule q) (use assms(3,4,6) in simp_all)
  have alike: "list_all2 (\<lambda>a b. fst a = fst b \<and> (fst a \<noteq> ''sshkey'' \<longrightarrow> snd a = snd b)) ?q1 ?q2"
    unfolding q1 q2 by (rule foldl_parseQuery_pair_alike) (rule Values_append_key_alike)
  have has: "Values_Has ?q1 ''sshkey''"
    unfolding q1 by (rule foldl_parseQuery_pair_keeps) (rule Values_append_Has)
  with Values_Set_alike [OF alike] show ?thesis
    by (simp add: paramsKey_def Let_def)
qed

lemma cacheKey_sshkey:
  assumes "RawQuery u1 = pre @ ''sshkey='' @ v1 @ post"
    and "u2 = u1\<lparr>RawQuery := pre @ ''sshkey='' @ v2 @ post\<rparr>"
    and "pre = [] \<or> last pre = CHR ''&''"
    and "post = [] \<or> hd post = CHR ''&''"
    and "CHR ''&'' \<notin> set v1 \<union> set v2"
    and "CHR '';'' \<notin> set v1 \<union> set v2"
    and "QueryUnescape v1 = Inr w1"
    and "QueryUnescape v2 = Inr w2"
  shows "cacheKey u1 = cacheKey u2"
  using assms(1,2) paramsKey_sshkey [OF assms(3-8)]
  by (simp add: cacheKey_def dirKey_def srcDir_def)

subsection \<open>The query of a reference\<close>

text \<open>
  How \<^verbatim>\<open>Parse\<close> treats a reference \<open>x?q\<close> whose query \<open>q\<close> holds no colon, no
  \<^verbatim>\<open>#\<close> and no control byte: the query goes to \<open>RawQuery\<close> as it is and nothing else of
  the descriptor depends on it.
\<close>

lemma Split_go_pieces: "p \<in> set (Split_go sep k s) \<Longrightarrow> set p \<subseteq> set s"
proof (induction s arbitrary: k p)
  case Nil
  then show ?case by simp
next
  case (Cons c cs)
  show ?case
  proof (cases "0 < k")
    case True
    with Cons show ?thesis by (auto split: if_splits)
  next
    case k0: False
    show ?thesis
    proof (cases "sep \<noteq> [] \<and> HasPrefix (c # cs) sep")
      case True
      with k0 Cons.prems have "p = [] \<or> p \<in> set (Split_go sep (length sep - 1) cs)" by auto
      with Cons.IH show ?thesis by auto
    next
      case False
      obtain q qs where q: "Split_go sep 0 cs = q # qs"
        using Split_go_nonempty [of sep 0 cs] by (cases "Split_go sep 0 cs") auto
      with k0 False Cons.prems have "p = c # q \<or> p \<in> set qs" by auto
      with q Cons.IH [of q 0] Cons.IH [of p 0] show ?thesis by auto
    qed
  qed
qed

lemma Split_go_no_match:
  "hd sep \<notin> set q \<Longrightarrow> Split_go sep 0 q = [q]"
proof (induction q)
  case Nil
  show ?case by simp
next
  case (Cons c cs)
  then have "\<not> (sep \<noteq> [] \<and> HasPrefix (c # cs) sep)"
    by (cases sep) (auto simp add: HasPrefix_def)
  with Cons show ?case by simp
qed

lemma HasPrefix_append:
  assumes "q \<noteq> [] \<longrightarrow> hd q \<notin> set sep"
  shows "HasPrefix (b @ q) sep \<longleftrightarrow> HasPrefix b sep"
proof (cases "length sep \<le> length b")
  case True
  then show ?thesis by (simp add: HasPrefix_def)
next
  case False
  then have n: "\<not> HasPrefix b sep"
    by (auto simp add: HasPrefix_def)
  have "\<not> HasPrefix (b @ q) sep"
  proof
    assume "HasPrefix (b @ q) sep"
    with False have s: "sep = b @ take (length sep - length b) q"
      by (simp add: HasPrefix_def)
    from False have "0 < length sep - length b" by simp
    with s have "q \<noteq> []"
      by (metis False append_Nil2 le_refl take_Nil)
    then obtain d ds where q: "q = d # ds" by (cases q) auto
    from False obtain n where "length sep - length b = Suc n"
      by (cases "length sep - length b") auto
    with s q have "d \<in> set sep"
      by (metis in_set_conv_decomp take_Suc_Cons)
    with assms q show False by simp
  qed
  with n show ?thesis by simp
qed

lemma HasPrefix_length: "HasPrefix b sep \<Longrightarrow> length sep \<le> length b"
proof -
  assume "HasPrefix b sep"
  then have "length (take (length sep) b) = length sep"
    by (simp add: HasPrefix_def)
  then show ?thesis
    by simp
qed

lemma Split_go_append:
  assumes "hd sep \<notin> set q" and "q \<noteq> [] \<longrightarrow> hd q \<notin> set sep"
  shows "k \<le> length b \<Longrightarrow>
         Split_go sep k (b @ q) = butlast (Split_go sep k b) @ [last (Split_go sep k b) @ q]"
proof (induction b arbitrary: k)
  case Nil
  with assms(1) show ?case by (simp add: Split_go_no_match)
next
  case (Cons c cs)
  show ?case
  proof (cases "0 < k")
    case True
    with Cons show ?thesis by simp
  next
    case k0: False
    have m: "HasPrefix (c # cs @ q) sep \<longleftrightarrow> HasPrefix (c # cs) sep"
      using HasPrefix_append [OF assms(2), of "c # cs"] by simp
    show ?thesis
    proof (cases "sep \<noteq> [] \<and> HasPrefix (c # cs) sep")
      case True
      then have "length sep - 1 \<le> length cs"
        using HasPrefix_length [of "c # cs" sep] by simp
      from Cons.IH [OF this] True k0 m show ?thesis
        using Split_go_nonempty [of sep "length sep - 1" cs] by simp
    next
      case False
      obtain p ps where p: "Split_go sep 0 cs = p # ps"
        using Split_go_nonempty [of sep 0 cs] by (cases "Split_go sep 0 cs") auto
      from Cons.IH [of 0] False k0 m p show ?thesis
        by (cases ps) auto
    qed
  qed
qed

lemma Split_append:
  assumes "hd sep \<notin> set q" and "q \<noteq> [] \<longrightarrow> hd q \<notin> set sep"
  shows "Split (b @ q) sep = butlast (Split b sep) @ [last (Split b sep) @ q]"
  using Split_go_append [OF assms, of 0 b] by (simp add: Split_def)

lemma not_scheme_byte:
  "\<not> is_alpha (CHR ''?'')" "\<not> is_digit (CHR ''?'')"
  by (simp_all add: is_alpha_def is_digit_def byte_in_def)

lemma getScheme_go_query:
  "getScheme_go (raw @ CHR ''?'' # q) seen (cs @ CHR ''?'' # q)
     = (case getScheme_go raw seen cs of
          Inl e \<Rightarrow> Inl e
        | Inr (scheme, rest) \<Rightarrow> Inr (scheme, rest @ CHR ''?'' # q))"
  by (induction cs arbitrary: seen) (simp_all add: not_scheme_byte)

lemma getScheme_query:
  "getScheme (x @ CHR ''?'' # q)
     = (case getScheme x of
          Inl e \<Rightarrow> Inl e
        | Inr (scheme, rest) \<Rightarrow> Inr (scheme, rest @ CHR ''?'' # q))"
  by (simp add: getScheme_def getScheme_go_query)

lemma getScheme_go_rest:
  "getScheme_go raw seen cs = Inr (scheme, rest) \<Longrightarrow> set cs \<subseteq> set raw \<Longrightarrow> set rest \<subseteq> set raw"
  by (induction cs arbitrary: seen) (auto split: if_splits)

lemma getScheme_rest: "getScheme x = Inr (scheme, rest) \<Longrightarrow> set rest \<subseteq> set x"
  using getScheme_go_rest [of x "[]" x scheme rest] by (simp add: getScheme_def)

lemma Index_char_first: "c \<notin> set a \<Longrightarrow> Index (a @ c # b) [c] = Some (length a)"
  by (induction a) (auto simp add: HasPrefix_def)

lemma Cut_char_first: "c \<notin> set a \<Longrightarrow> Cut (a @ c # b) [c] = (a, b)"
  by (simp add: Cut_def Index_char_first)

lemma Cut_char_none: "c \<notin> set a \<Longrightarrow> Cut a [c] = (a, [])"
  by (simp add: Cut_def Index_char_none)

lemma HasSuffix_char: "HasSuffix s [c] \<longleftrightarrow> s \<noteq> [] \<and> last s = c"
proof (cases s rule: rev_cases)
  case Nil
  then show ?thesis by (simp add: HasSuffix_def)
next
  case (snoc ys y)
  then show ?thesis by (auto simp add: HasSuffix_def)
qed

lemma Count_char_member: "c \<in> set s \<Longrightarrow> 1 \<le> Count s [c]"
proof -
  assume "c \<in> set s"
  then obtain a b where "s = a @ c # b" by (auto simp add: in_set_conv_decomp)
  then have "Split s [c] = Split a [c] @ Split b [c]" by (simp add: Split_char_append)
  moreover have "Split a [c] \<noteq> []" "Split b [c] \<noteq> []"
    by (simp_all add: Split_def Split_go_nonempty)
  ultimately have "2 \<le> length (Split s [c])"
    by (cases "Split a [c]"; cases "Split b [c]") auto
  then show ?thesis by (simp add: Count_def)
qed

lemma Count_char_none: "c \<notin> set s \<Longrightarrow> Count s [c] = 0"
  by (simp add: Count_def Split_char_none)

text \<open>The query and the rest of a URL whose first question mark is known.\<close>

lemma force_query_iff:
  assumes "CHR ''?'' \<notin> set a"
  shows "HasSuffix (a @ CHR ''?'' # q) ''?'' \<and> Count (a @ CHR ''?'' # q) ''?'' = 1 \<longleftrightarrow> q = []"
proof -
  have "Split (a @ CHR ''?'' # q) ''?'' = a # Split q ''?''"
    by (simp add: Split_char_append Split_char_none [OF assms])
  moreover have "Split q ''?'' \<noteq> []"
    by (simp add: Split_def Split_go_nonempty)
  ultimately have c: "Count (a @ CHR ''?'' # q) ''?'' = Suc (Count q ''?'')"
    by (cases "Split q ''?''") (simp_all add: Count_def)
  show ?thesis
  proof (cases "q = []")
    case True
    with c show ?thesis by (simp add: HasSuffix_char Count_char_none)
  next
    case False
    have "\<not> (last q = CHR ''?'' \<and> Count q ''?'' = 0)"
    proof
      assume l: "last q = CHR ''?'' \<and> Count q ''?'' = 0"
      with False have "CHR ''?'' \<in> set q" by (metis last_in_set)
      from Count_char_member [OF this] l show False by simp
    qed
    with False show ?thesis by (auto simp add: c HasSuffix_char)
  qed
qed

lemma no_force_query:
  assumes "CHR ''?'' \<notin> set a"
  shows "\<not> (HasSuffix a ''?'' \<and> Count a ''?'' = 1)"
proof
  assume "HasSuffix a ''?'' \<and> Count a ''?'' = 1"
  then have "a \<noteq> []" and "last a = CHR ''?''"
    by (simp_all add: HasSuffix_char)
  then have "CHR ''?'' \<in> set a"
    by (metis last_in_set)
  with assms show False by simp
qed

lemma CTL_query:
  "stringContainsCTLByte (x @ CHR ''?'' # q) \<longleftrightarrow> stringContainsCTLByte x \<or> stringContainsCTLByte q"
  by (auto simp add: stringContainsCTLByte_def)

lemma parse_rest_query:
  "parse_rest (url\<lparr>URL_RawQuery := q\<rparr>) rest
     = map_sum id (\<lambda>u. u\<lparr>URL_RawQuery := q\<rparr>) (parse_rest url rest)"
  by (simp add: parse_rest_def Let_def split: sum.splits prod.splits)

lemma url_parse_query:
  assumes "CHR ''?'' \<notin> set x" and "\<not> stringContainsCTLByte q"
  shows "url_parse (x @ CHR ''?'' # q) = map_sum id (\<lambda>u. u\<lparr>URL_RawQuery := q\<rparr>) (url_parse x)"
proof -
  let ?url0 = "\<lparr>URL_Scheme = [], URL_Opaque = [], URL_User = None, URL_Host = [],
                URL_Path = [], URL_RawQuery = []\<rparr>"
  have ns: "x @ CHR ''?'' # q \<noteq> ''*''"
    by (cases x) auto
  have rest: "(case getScheme (x @ CHR ''?'' # q) of
                 Inl e \<Rightarrow> Inl e
               | Inr (scheme, rest) \<Rightarrow>
                   if HasSuffix rest ''?'' \<and> Count rest ''?'' = 1 then
                     parse_rest (?url0\<lparr>URL_Scheme := ToLower scheme\<rparr>) (take (length rest - 1) rest)
                   else
                     parse_rest (?url0\<lparr>URL_Scheme := ToLower scheme, URL_RawQuery := snd (Cut rest ''?'')\<rparr>)
                                (fst (Cut rest ''?'')))
            = map_sum id (\<lambda>u. u\<lparr>URL_RawQuery := q\<rparr>)
               (case getScheme x of
                 Inl e \<Rightarrow> Inl e
               | Inr (scheme, rest) \<Rightarrow>
                   if HasSuffix rest ''?'' \<and> Count rest ''?'' = 1 then
                     parse_rest (?url0\<lparr>URL_Scheme := ToLower scheme\<rparr>) (take (length rest - 1) rest)
                   else
                     parse_rest (?url0\<lparr>URL_Scheme := ToLower scheme, URL_RawQuery := snd (Cut rest ''?'')\<rparr>)
                                (fst (Cut rest ''?'')))"
  proof (cases "getScheme x")
    case (Inl e)
    then show ?thesis by (simp add: getScheme_query)
  next
    case (Inr sr)
    obtain scheme restx where sr: "sr = (scheme, restx)" by (cases sr)
    with Inr assms(1) have n: "CHR ''?'' \<notin> set restx"
      using getScheme_rest [of x scheme restx] by auto
    have l: "parse_rest (?url0\<lparr>URL_Scheme := ToLower scheme, URL_RawQuery := q\<rparr>) restx
               = map_sum id (\<lambda>u. u\<lparr>URL_RawQuery := q\<rparr>) (parse_rest (?url0\<lparr>URL_Scheme := ToLower scheme\<rparr>) restx)"
      using parse_rest_query [where url = "?url0\<lparr>URL_Scheme := ToLower scheme\<rparr>" and q = q and rest = restx]
      by simp
    show ?thesis
    proof (cases "q = []")
      case True
      with Inr sr n l show ?thesis
        using force_query_iff [OF n, of q] no_force_query [OF n]
        by (auto simp add: getScheme_query Cut_char_none)
    next
      case False
      with Inr sr n l show ?thesis
        using force_query_iff [OF n, of q] no_force_query [OF n]
        by (auto simp add: getScheme_query Cut_char_none Cut_char_first)
    qed
  qed
  have star: "(case getScheme ''*'' of
                 Inl e \<Rightarrow> Inl e
               | Inr (scheme, rest) \<Rightarrow>
                   if HasSuffix rest ''?'' \<and> Count rest ''?'' = 1 then
                     parse_rest (?url0\<lparr>URL_Scheme := ToLower scheme\<rparr>) (take (length rest - 1) rest)
                   else
                     parse_rest (?url0\<lparr>URL_Scheme := ToLower scheme, URL_RawQuery := snd (Cut rest ''?'')\<rparr>)
                                (fst (Cut rest ''?'')))
              = Inr (?url0\<lparr>URL_Path := ''*''\<rparr>)"
    by code_simp
  have body: "url_parse y = (case getScheme y of
                 Inl e \<Rightarrow> Inl e
               | Inr (scheme, rest) \<Rightarrow>
                   if HasSuffix rest ''?'' \<and> Count rest ''?'' = 1 then
                     parse_rest (?url0\<lparr>URL_Scheme := ToLower scheme\<rparr>) (take (length rest - 1) rest)
                   else
                     parse_rest (?url0\<lparr>URL_Scheme := ToLower scheme, URL_RawQuery := snd (Cut rest ''?'')\<rparr>)
                                (fst (Cut rest ''?'')))"
    if "\<not> stringContainsCTLByte y" for y
  proof (cases "y = ''*''")
    case True
    have "url_parse ''*'' = Inr (?url0\<lparr>URL_Path := ''*''\<rparr>)"
      by code_simp
    with True star show ?thesis by simp
  next
    case False
    with that show ?thesis
      unfolding url_parse_def Let_def by simp
  qed
  show ?thesis
  proof (cases "stringContainsCTLByte x")
    case True
    then show ?thesis by (simp add: url_parse_def CTL_query)
  next
    case False
    with assms(2) have "\<not> stringContainsCTLByte (x @ CHR ''?'' # q)"
      by (simp add: CTL_query)
    from body [OF this] body [OF False] rest show ?thesis
      by simp
  qed
qed


lemma url_Parse_no_fragment:
  "CHR ''#'' \<notin> set y
   \<Longrightarrow> url_Parse y = (case url_parse y of Inl e \<Rightarrow> Inl (ParseError y e) | Inr u \<Rightarrow> Inr u)"
  by (simp add: url_Parse_def Cut_char_none Let_def split: sum.splits)

lemma url_Parse_query:
  assumes "CHR ''?'' \<notin> set x" and "CHR ''#'' \<notin> set x"
    and "CHR ''#'' \<notin> set q1" and "\<not> stringContainsCTLByte q1"
    and "CHR ''#'' \<notin> set q2" and "\<not> stringContainsCTLByte q2"
    and "url_Parse (x @ CHR ''?'' # q1) = Inr u1"
  shows "url_Parse (x @ CHR ''?'' # q2) = Inr (u1\<lparr>URL_RawQuery := q2\<rparr>) \<and> URL_RawQuery u1 = q1"
proof -
  from assms(2,3) have "CHR ''#'' \<notin> set (x @ CHR ''?'' # q1)" by simp
  from url_Parse_no_fragment [OF this] assms(7)
  have "url_parse (x @ CHR ''?'' # q1) = Inr u1"
    by (simp split: sum.splits)
  with url_parse_query [OF assms(1,4)] obtain u0
    where u0: "url_parse x = Inr u0" and u1: "u1 = u0\<lparr>URL_RawQuery := q1\<rparr>"
    by (cases "url_parse x") auto
  from assms(2,5) have "CHR ''#'' \<notin> set (x @ CHR ''?'' # q2)" by simp
  from url_Parse_no_fragment [OF this] url_parse_query [OF assms(1,6)] u0 u1
  show ?thesis by simp
qed

lemma Parse_url_query:
  assumes "CHR ''?'' \<notin> set x" and "CHR ''#'' \<notin> set x"
    and "CHR ''#'' \<notin> set q1" and "\<not> stringContainsCTLByte q1"
    and "CHR ''#'' \<notin> set q2" and "\<not> stringContainsCTLByte q2"
    and "Parse_url g (x @ CHR ''?'' # q1) = Return (Inr s1)"
  shows "Parse_url g (x @ CHR ''?'' # q2) = Return (Inr (s1\<lparr>RawQuery := q2\<rparr>)) \<and> RawQuery s1 = q1"
proof (cases "url_Parse (x @ CHR ''?'' # q1)")
  case (Inl e)
  with assms(7) show ?thesis by (simp add: Parse_url_def)
next
  case (Inr u1)
  from url_Parse_query [OF assms(1-6) Inr] Inr assms(7) show ?thesis
    by (auto simp add: Parse_url_def Let_def split: if_splits)
qed

lemma lower_query: "CHR ''?'' \<in> set s \<Longrightarrow> CHR ''?'' \<in> set (ToLower s)"
proof -
  have "lower_byte (CHR ''?'') = CHR ''?''"
    by (simp add: lower_byte_def)
  then show "CHR ''?'' \<in> set s \<Longrightarrow> CHR ''?'' \<in> set (ToLower s)"
    by (force simp add: ToLower_def)
qed

lemma Split_query:
  assumes "CHR '':'' \<notin> set q" and "sep = ''::'' \<or> sep = ''://''"
  shows "Split (x @ CHR ''?'' # q) sep = butlast (Split x sep) @ [last (Split x sep) @ CHR ''?'' # q]"
proof -
  from assms have "hd sep \<notin> set (CHR ''?'' # q)" by auto
  moreover from assms(2) have "CHR ''?'' # q \<noteq> [] \<longrightarrow> hd (CHR ''?'' # q) \<notin> set sep" by auto
  ultimately show ?thesis by (rule Split_append)
qed

lemma Split_pieces: "p \<in> set (Split s sep) \<Longrightarrow> set p \<subseteq> set s"
  by (simp add: Split_def Split_go_pieces)

lemma ParseNormal_query:
  assumes "CHR ''?'' \<notin> set x" and "CHR ''#'' \<notin> set x"
    and "CHR ''#'' \<notin> set q1" and "\<not> stringContainsCTLByte q1" and "CHR '':'' \<notin> set q1"
    and "CHR ''#'' \<notin> set q2" and "\<not> stringContainsCTLByte q2" and "CHR '':'' \<notin> set q2"
    and "ParseNormal (x @ CHR ''?'' # q1) = Return (Inr s1)"
  shows "ParseNormal (x @ CHR ''?'' # q2) = Return (Inr (s1\<lparr>RawQuery := q2\<rparr>)) \<and> RawQuery s1 = q1"
proof -
  let ?S = "Split x ''://''"
  have ne: "?S \<noteq> []" by (simp add: Split_def Split_go_nonempty)
  have sp: "Split (x @ CHR ''?'' # q) ''://'' = butlast ?S @ [last ?S @ CHR ''?'' # q]"
    if "CHR '':'' \<notin> set q" for q
    using that by (simp add: Split_query)
  have proto: "ParseNormalProtocol (x @ CHR ''?'' # q)
                 = (if butlast ?S \<noteq> [] \<and> ToLower (hd ?S) \<in> {''s3'', ''http'', ''https''}
                    then Inr (ToLower (hd ?S)) else Inl (UnsupportedSchemeError (x @ CHR ''?'' # q)))"
    if "CHR '':'' \<notin> set q" for q
  proof (cases "butlast ?S = []")
    case True
    have "CHR ''?'' \<in> set (ToLower (last ?S @ CHR ''?'' # q))"
      by (rule lower_query) simp
    then have "ToLower (last ?S @ CHR ''?'' # q) \<notin> {''s3'', ''http'', ''https''}"
      by auto
    with True sp [OF that] show ?thesis
      by (simp add: ParseNormalProtocol_def)
  next
    case False
    then obtain a as where "butlast ?S = a # as" by (cases "butlast ?S") auto
    moreover from this ne have "hd ?S = a" by (cases ?S) (auto split: if_splits)
    ultimately show ?thesis
      using sp [OF that] by (simp add: ParseNormalProtocol_def)
  qed
  show ?thesis
  proof (cases "ParseNormalProtocol (x @ CHR ''?'' # q1)")
    case (Inl e)
    with assms(9) show ?thesis by (simp add: ParseNormal_def)
  next
    case (Inr pr)
    with proto [OF assms(5)] have "butlast ?S \<noteq> [] \<and> ToLower (hd ?S) \<in> {''s3'', ''http'', ''https''}"
      and "pr = ToLower (hd ?S)"
      by (simp_all split: if_splits)
    with proto [OF assms(8)] have pr2: "ParseNormalProtocol (x @ CHR ''?'' # q2) = Inr pr"
      by simp
    show ?thesis
    proof (cases "url_Parse (x @ CHR ''?'' # q1)")
      case (Inl e)
      with Inr assms(9) show ?thesis by (simp add: ParseNormal_def)
    next
      case u1: (Inr u1)
      from url_Parse_query [OF assms(1-4,6,7) u1] u1 Inr pr2 assms(9) show ?thesis
        by (auto simp add: ParseNormal_def Let_def)
    qed
  qed
qed

lemma Parse_query:
  assumes "CHR ''?'' \<notin> set x" and "CHR ''#'' \<notin> set x"
    and "CHR ''#'' \<notin> set q1" and "\<not> stringContainsCTLByte q1" and "CHR '':'' \<notin> set q1"
    and "CHR ''#'' \<notin> set q2" and "\<not> stringContainsCTLByte q2" and "CHR '':'' \<notin> set q2"
    and "Parse (x @ CHR ''?'' # q1) = Return (Inr s1)"
  shows "Parse (x @ CHR ''?'' # q2) = Return (Inr (s1\<lparr>RawQuery := q2\<rparr>)) \<and> RawQuery s1 = q1"
proof -
  let ?S = "Split x ''::''" and ?T = "Split x ''://''"
  have neS: "?S \<noteq> []" and neT: "?T \<noteq> []"
    by (simp_all add: Split_def Split_go_nonempty)
  have S: "Split (x @ CHR ''?'' # q) ''::'' = butlast ?S @ [last ?S @ CHR ''?'' # q]"
    and T: "Split (x @ CHR ''?'' # q) ''://'' = butlast ?T @ [last ?T @ CHR ''?'' # q]"
    if "CHR '':'' \<notin> set q" for q
    using that by (simp_all add: Split_query)
  have lS: "length (Split (x @ CHR ''?'' # q) ''::'') = length ?S"
    and lT: "length (Split (x @ CHR ''?'' # q) ''://'') = length ?T"
    if "CHR '':'' \<notin> set q" for q
    using S [OF that] T [OF that] neS neT by simp_all
  show ?thesis
  proof (cases "length ?S = 2")
    case True
    then obtain g x' where gx: "?S = [g, x']"
      by (cases ?S; cases "tl ?S") auto
    then have "x' \<in> set ?S" by simp
    then have "set x' \<subseteq> set x" by (rule Split_pieces)
    with assms(1,2) have n: "CHR ''?'' \<notin> set x'" "CHR ''#'' \<notin> set x'" by auto
    have P: "Parse (x @ CHR ''?'' # q) = Parse_url g (x' @ CHR ''?'' # q)" if "CHR '':'' \<notin> set q" for q
      using S [OF that] gx by (simp add: Parse_def Let_def)
    from Parse_url_query [OF n assms(3,4,6,7)] assms(9) P [OF assms(5)] P [OF assms(8)]
    show ?thesis by simp
  next
    case nS: False
    show ?thesis
    proof (cases "length ?T = 2")
      case True
      have P: "Parse (x @ CHR ''?'' # q) = ParseNormal (x @ CHR ''?'' # q)" if "CHR '':'' \<notin> set q" for q
        using lS [OF that] lT [OF that] nS True by (simp add: Parse_def Let_def)
      from ParseNormal_query [OF assms(1-8)] assms(9) P [OF assms(5)] P [OF assms(8)]
      show ?thesis by simp
    next
      case False
      have P: "Parse (x @ CHR ''?'' # q) = Parse_url [] (x @ CHR ''?'' # q)" if "CHR '':'' \<notin> set q" for q
        using lS [OF that] lT [OF that] nS False by (simp add: Parse_def Let_def)
      from Parse_url_query [OF assms(1-4,6,7)] assms(9) P [OF assms(5)] P [OF assms(8)]
      show ?thesis by simp
    qed
  qed
qed

subsection \<open>A successful download\<close>

lemma download_success:
  assumes "download rm r path u dst w = (Return (p, None), w1, evs)"
  shows "p = filepath_Join [dst, File u]
       \<and> (\<exists>g \<in> {Remote.Getter r, S3Getter r, HttpGetter r}. \<exists>wd src. g wd src dst w = (None, w1))
       \<and> GetCalls evs = 1"
proof (cases "dispatch u")
  case Generic
  with assms show ?thesis
    by (auto simp add: download_def GetCalls_def split: prod.splits option.splits)
next
  case S3
  with assms show ?thesis
    by (auto simp add: download_def GetCalls_def split: prod.splits option.splits)
next
  case Http
  with assms show ?thesis
    by (auto simp add: download_def GetCalls_def split: prod.splits option.splits)
qed

lemma mkdirGetter_creates:
  "mkdirGetter wd src dst v = (None, v')
   \<Longrightarrow> DirectoryExistsAt diskFS dst v' \<and> \<not> FileExistsAt diskFS dst v'"
  by (auto simp add: mkdirGetter_def diskFS_def)

subsection \<open>Local paths come first\<close>

text \<open>
  Claim C3. A reference that exists on the file system, as a file or as a directory, is
  returned by \<^verbatim>\<open>Locate\<close> as it is, with no error; the world is unchanged and no
  strategy is called (\<^verbatim>\<open>Fetch\<close> is not reached), whatever the reference parses to.
\<close>

theorem Locate_local_precedence:
  assumes "FileExistsAt (fs r) urlOrPath w \<or> DirectoryExistsAt (fs r) urlOrPath w"
  shows "Locate rm r urlOrPath cacheDirOpt w = (Return (urlOrPath, None), w, [])"
  using assms by (simp add: Locate_def)

text \<open>The reference of the witness is a file on the disk and parses as a remote URL.\<close>

theorem Locate_local_precedence_witness:
  "FileExistsAt (fs testRemote) ''s3://b/k.yaml'' [(''s3://b/k.yaml'', IsRegular)]
   \<and> IsRemote ''s3://b/k.yaml'' = Return True
   \<and> Locate diskRemoveAll testRemote ''s3://b/k.yaml'' [] [(''s3://b/k.yaml'', IsRegular)]
       = (Return (''s3://b/k.yaml'', None), [(''s3://b/k.yaml'', IsRegular)], [])"
proof -
  have h: "FileExistsAt (fs testRemote) ''s3://b/k.yaml'' [(''s3://b/k.yaml'', IsRegular)]"
    by (simp add: testRemote_def diskFS_def)
  have r: "IsRemote ''s3://b/k.yaml'' = Return True"
    by code_simp
  from h have "FileExistsAt (fs testRemote) ''s3://b/k.yaml'' [(''s3://b/k.yaml'', IsRegular)]
      \<or> DirectoryExistsAt (fs testRemote) ''s3://b/k.yaml'' [(''s3://b/k.yaml'', IsRegular)]"
    by simp
  from Locate_local_precedence [OF this] h r show ?thesis
    by simp
qed

subsection \<open>A file in the place of the cache directory\<close>

text \<open>
  Claim C5. For a reference that parses and at most one override (so that a cache path
  is computed): when a plain file exists at the cache path, \<^verbatim>\<open>Fetch\<close> fails with the
  error of line 239 for \<open>getterDst\<close>, calls no strategy and leaves the world as it was.
\<close>

theorem Fetch_cache_path_conflict:
  assumes "Parse path = Return (Inr u)"
    and "length cacheDirOpt \<le> 1"
    and "FileExistsAt (fs r) (cacheDirPath r u (cacheBaseDir cacheDirOpt)) w"
  shows "Fetch rm r path cacheDirOpt w
           = (Return ([], Some (CachePathConflictError (getterDst u (cacheBaseDir cacheDirOpt)))), w, [])"
  using assms(3) by (simp add: Fetch_at_most_one_override [OF assms(1,2)])

theorem Fetch_cache_path_conflict_witness:
  "Parse ''s3://my-bucket/path/to/object.yaml''
     = Return (Inr \<lparr>Source.Getter = ''normal'', Scheme = ''s3'', User = [], Host = ''my-bucket'',
                     Dir = ''/path/to'', File = ''object.yaml'', RawQuery = []\<rparr>)
   \<and> length [''sub''] \<le> (1::nat)
   \<and> FileExistsAt (fs testRemote) ''/cache/sub/s3_my-bucket_path_to''
        [(''/cache/sub/s3_my-bucket_path_to'', IsRegular)]
   \<and> Fetch diskRemoveAll testRemote ''s3://my-bucket/path/to/object.yaml'' [''sub'']
        [(''/cache/sub/s3_my-bucket_path_to'', IsRegular)]
       = (Return ([], Some (CachePathConflictError ''sub/s3_my-bucket_path_to'')),
          [(''/cache/sub/s3_my-bucket_path_to'', IsRegular)], [])"
proof -
  let ?u = "\<lparr>Source.Getter = ''normal'', Scheme = ''s3'', User = [], Host = ''my-bucket'',
             Dir = ''/path/to'', File = ''object.yaml'', RawQuery = []\<rparr>"
  let ?d = "[(''/cache/sub/s3_my-bucket_path_to'', IsRegular)]"
  note p = Parse_s3_example
  have l: "length [''sub''] \<le> (1::nat)"
    by simp
  have g: "getterDst ?u (cacheBaseDir [''sub'']) = ''sub/s3_my-bucket_path_to''"
    by code_simp
  have c: "cacheDirPath testRemote ?u (cacheBaseDir [''sub'']) = ''/cache/sub/s3_my-bucket_path_to''"
    by code_simp
  have f: "FileExistsAt (fs testRemote) ''/cache/sub/s3_my-bucket_path_to'' ?d"
    by (simp add: testRemote_def diskFS_def)
  from f c have "FileExistsAt (fs testRemote) (cacheDirPath testRemote ?u (cacheBaseDir [''sub''])) ?d"
    by simp
  from Fetch_cache_path_conflict [OF p l this, of diskRemoveAll] p f g show ?thesis
    by simp
qed

subsection \<open>More than one override\<close>

text \<open>
  Claim C10, as amended. \<^verbatim>\<open>Fetch\<close> parses the reference before it counts the
  overrides. When \<^verbatim>\<open>Parse\<close> returns and two or more overrides are given, \<^verbatim>\<open>Fetch\<close>
  returns an error, calls no strategy and leaves the world as it was; the error is the
  \<^verbatim>\<open>[bug]\<close> error of line 206 when the reference parses, and the error of \<^verbatim>\<open>Parse\<close>
  when it does not.
\<close>

theorem Fetch_two_overrides:
  assumes "Parse path = Return p" and "2 \<le> length cacheDirOpt"
  shows "Fetch rm r path cacheDirOpt w
           = (Return ([], Some (case p of Inl err \<Rightarrow> err
                                 | Inr u \<Rightarrow> cacheDirOptBug (length cacheDirOpt))), w, [])"
proof (cases p)
  case (Inl err)
  with assms(1) show ?thesis
    by (simp add: Fetch_def)
next
  case (Inr u)
  from assms(2) have "length cacheDirOpt \<noteq> 1 \<and> 0 < length cacheDirOpt"
    by auto
  with Inr assms(1) show ?thesis
    by (simp add: Fetch_parsed)
qed

theorem Fetch_two_overrides_witness:
  "Parse ''s3://my-bucket/path/to/object.yaml''
     = Return (Inr \<lparr>Source.Getter = ''normal'', Scheme = ''s3'', User = [], Host = ''my-bucket'',
                     Dir = ''/path/to'', File = ''object.yaml'', RawQuery = []\<rparr>)
   \<and> (2::nat) \<le> length [''a'', ''b'']
   \<and> Fetch diskRemoveAll testRemote ''s3://my-bucket/path/to/object.yaml'' [''a'', ''b''] []
       = (Return ([], Some (Errorf ''[bug] cacheDirOpt's length: want 0 or 1, got 2'')), [], [])"
proof -
  note p = Parse_s3_example
  have l: "(2::nat) \<le> length [''a'', ''b'']"
    by simp
  have b: "cacheDirOptBug (length [''a'', ''b''])
             = Errorf ''[bug] cacheDirOpt's length: want 0 or 1, got 2''"
    by code_simp
  from Fetch_two_overrides [OF p l, of diskRemoveAll testRemote "[]"] p b show ?thesis
    by simp
qed

text \<open>
  The claim as stated fails twice. With two overrides, a reference that does not parse
  gets the error of \<^verbatim>\<open>Parse\<close>, which reports no caller bug; and a reference that
  \<^verbatim>\<open>ParseNormal\<close> hands to \<^verbatim>\<open>url.Parse\<close> and that \<^verbatim>\<open>url.Parse\<close> rejects makes
  \<^verbatim>\<open>Fetch\<close> panic (the nil \<open>u\<close> is read at line 152), so no error is returned at all.
\<close>

theorem Fetch_two_overrides_counterexample:
  "Fetch diskRemoveAll testRemote ''./x'' [''a'', ''b''] []
     = (Return ([], Some (InvalidURLError (missing_scheme ''./x''))), [], [])
   \<and> Fetch diskRemoveAll testRemote ''http://h/%zz'' [''a'', ''b''] [] = (Panic, [], [])"
  by code_simp

subsection \<open>The git example\<close>

text \<open>
  Claim C9. \<^verbatim>\<open>Parse("git::https://example.com/org/repo.git//sub@file.yaml?ref=v1.0")\<close>
  returns the forced getter \<^verbatim>\<open>git\<close>, the scheme \<^verbatim>\<open>https\<close>, the host
  \<^verbatim>\<open>example.com\<close> and the query \<^verbatim>\<open>ref=v1.0\<close>; \<open>Dir\<close> and \<open>File\<close> are the two parts of
  the URL path split at its one \<^verbatim>\<open>@\<close>.
\<close>

theorem Parse_git_example:
  "Parse ''git::https://example.com/org/repo.git//sub@file.yaml?ref=v1.0''
     = Return (Inr \<lparr>Source.Getter = ''git'', Scheme = ''https'', User = [], Host = ''example.com'',
                     Dir = ''/org/repo.git//sub'', File = ''file.yaml'', RawQuery = ''ref=v1.0''\<rparr>)
   \<and> Split ''/org/repo.git//sub@file.yaml'' ''@'' = [''/org/repo.git//sub'', ''file.yaml'']"
  by code_simp

subsection \<open>A failure of the S3 or HTTP strategy\<close>

text \<open>
  Claim C7. On a cache miss that goes to the S3 or to the HTTP strategy, when its
  \<^verbatim>\<open>Get\<close> fails with \<open>err\<close>, \<^verbatim>\<open>Fetch\<close> returns \<^verbatim>\<open>multierr.Append(err, err)\<close>
  (lines 268 and 274): not \<open>err\<close> but a combined error that holds it twice. The
  \<^verbatim>\<open>Get\<close> call is the only event: nothing is removed, and the world is as the
  strategy left it.
\<close>

theorem Fetch_direct_failure:
  assumes "Parse path = Return (Inr u)"
    and "length cacheDirOpt \<le> 1"
    and "dst = cacheDirPath r u (cacheBaseDir cacheDirOpt)"
    and "\<not> FileExistsAt (fs r) dst w"
    and "\<not> cached r u dst w"
    and "dispatch u = S3 \<and> g = S3Getter r \<or> dispatch u = Http \<and> g = HttpGetter r"
    and "g (Home r) path dst w = (Some err, w1)"
  shows "Fetch rm r path cacheDirOpt w
           = (Return ([], Some (multierr_Append err err)), w1, [Get (dispatch u) (Home r) path dst])"
proof -
  from assms(1-5) have "Fetch rm r path cacheDirOpt w = download rm r path u dst w"
    by (simp add: Fetch_at_most_one_override)
  also from assms(6,7) have "\<dots> = (Return ([], Some (multierr_Append err err)), w1,
                                     [Get (dispatch u) (Home r) path dst])"
    by (auto simp add: download_def)
  finally show ?thesis .
qed

text \<open>
  With a strategy that makes its destination directory and then fails with
  \<^verbatim>\<open>NoSuchKey\<close>, the error returned is not \<^verbatim>\<open>NoSuchKey\<close>, and the directory stays.
\<close>

theorem Fetch_direct_failure_witness:
  "Parse ''s3://my-bucket/path/to/object.yaml''
     = Return (Inr \<lparr>Source.Getter = ''normal'', Scheme = ''s3'', User = [], Host = ''my-bucket'',
                     Dir = ''/path/to'', File = ''object.yaml'', RawQuery = []\<rparr>)
   \<and> S3Getter (failingRemote (Foreign ''NoSuchKey'')) ''/cache''
        ''s3://my-bucket/path/to/object.yaml'' ''/cache/s3_my-bucket_path_to'' []
       = (Some (Foreign ''NoSuchKey''), [(''/cache/s3_my-bucket_path_to'', IsDir)])
   \<and> Fetch diskRemoveAll (failingRemote (Foreign ''NoSuchKey''))
        ''s3://my-bucket/path/to/object.yaml'' [] []
       = (Return ([], Some (multiError [Foreign ''NoSuchKey'', Foreign ''NoSuchKey''])),
          [(''/cache/s3_my-bucket_path_to'', IsDir)],
          [Get S3 ''/cache'' ''s3://my-bucket/path/to/object.yaml'' ''/cache/s3_my-bucket_path_to''])
   \<and> multiError [Foreign ''NoSuchKey'', Foreign ''NoSuchKey''] \<noteq> Foreign ''NoSuchKey''
   \<and> DirectoryExistsAt diskFS ''/cache/s3_my-bucket_path_to'' [(''/cache/s3_my-bucket_path_to'', IsDir)]"
proof -
  let ?u = "\<lparr>Source.Getter = ''normal'', Scheme = ''s3'', User = [], Host = ''my-bucket'',
             Dir = ''/path/to'', File = ''object.yaml'', RawQuery = []\<rparr>"
  let ?e = "Foreign ''NoSuchKey''"
  let ?r = "failingRemote ?e"
  let ?ref = "''s3://my-bucket/path/to/object.yaml''"
  let ?dst = "''/cache/s3_my-bucket_path_to''"
  note p = Parse_s3_example
  have l: "length ([] :: string list) \<le> 1"
    by simp
  have d: "?dst = cacheDirPath ?r ?u (cacheBaseDir [])"
    by code_simp
  have h: "Home ?r = ''/cache''" and f: "fs ?r = diskFS"
    by (simp_all add: failingRemote_def)
  have nf: "\<not> FileExistsAt (fs ?r) ?dst []"
    by (simp add: f diskFS_def)
  have nc: "\<not> cached ?r ?u ?dst []"
    by (simp add: cached_def f diskFS_def)
  have s: "dispatch ?u = S3"
    by (simp add: dispatch_def)
  then have g: "dispatch ?u = S3 \<and> S3Getter ?r = S3Getter ?r \<or> dispatch ?u = Http \<and> S3Getter ?r = HttpGetter ?r"
    by simp
  have get: "S3Getter ?r ''/cache'' ?ref ?dst [] = (Some ?e, [(?dst, IsDir)])"
    by (simp add: failingRemote_def failingGetter_def)
  then have get': "S3Getter ?r (Home ?r) ?ref ?dst [] = (Some ?e, [(?dst, IsDir)])"
    by (simp add: h)
  have x: "DirectoryExistsAt diskFS ?dst [(?dst, IsDir)]"
    by (simp add: diskFS_def)
  from Fetch_direct_failure [OF p l d nf nc g get', of diskRemoveAll] p get x s
  show ?thesis
    by (simp add: h multierr_Append_def)
qed

subsection \<open>A failure of the generic strategy\<close>

text \<open>
  Claim C6. On a cache miss that goes to the generic strategy, when its \<^verbatim>\<open>Get\<close>
  fails with \<open>err\<close>, \<^verbatim>\<open>Fetch\<close> calls \<^verbatim>\<open>os.RemoveAll\<close> on the cache path before it
  returns. When the removal succeeds the error returned is \<open>err\<close> and no directory is
  left at the cache path; when the removal fails with \<open>rmerr\<close> the error returned is
  \<^verbatim>\<open>multierr.Append(err, rmerr)\<close>, which holds both. The last hypothesis is what
  \<^verbatim>\<open>os.RemoveAll\<close> promises: after it returns nil nothing exists at the path.
\<close>

theorem Fetch_generic_failure_cleanup:
  assumes "Parse path = Return (Inr u)"
    and "length cacheDirOpt \<le> 1"
    and "dst = cacheDirPath r u (cacheBaseDir cacheDirOpt)"
    and "\<not> FileExistsAt (fs r) dst w"
    and "\<not> cached r u dst w"
    and "dispatch u = Generic"
    and "Remote.Getter r (Home r) (genericSrc u) dst w = (Some err, w1)"
    and "rm dst w1 = (rmerr, w2)"
    and "\<not> (\<exists>p v v'. rm p v = (None, v') \<and> DirectoryExistsAt (fs r) p v')"
  shows "Fetch rm r path cacheDirOpt w
           = (Return ([], Some (case rmerr of None \<Rightarrow> err | Some e \<Rightarrow> multierr_Append err e)),
              w2, [Get Generic (Home r) (genericSrc u) dst, RemoveAll dst])
         \<and> (rmerr = None \<longrightarrow> \<not> DirectoryExistsAt (fs r) dst w2)"
proof -
  from assms(1-5) have "Fetch rm r path cacheDirOpt w = download rm r path u dst w"
    by (simp add: Fetch_at_most_one_override)
  also from assms(6-8) have "\<dots> = (Return ([], Some (case rmerr of None \<Rightarrow> err | Some e \<Rightarrow> multierr_Append err e)),
              w2, [Get Generic (Home r) (genericSrc u) dst, RemoveAll dst])"
    by (cases rmerr) (simp_all add: download_def)
  finally have a: "Fetch rm r path cacheDirOpt w = (Return ([], Some (case rmerr of None \<Rightarrow> err | Some e \<Rightarrow> multierr_Append err e)),
              w2, [Get Generic (Home r) (genericSrc u) dst, RemoveAll dst])" .
  from assms(8,9) have "rmerr = None \<longrightarrow> \<not> DirectoryExistsAt (fs r) dst w2"
    by blast
  with a show ?thesis by simp
qed

theorem Fetch_generic_failure_cleanup_witness:
  "Parse ''git::https://example.com/org/repo.git//sub@file.yaml?ref=v1.0''
     = Return (Inr \<lparr>Source.Getter = ''git'', Scheme = ''https'', User = [], Host = ''example.com'',
                     Dir = ''/org/repo.git//sub'', File = ''file.yaml'', RawQuery = ''ref=v1.0''\<rparr>)
   \<and> Fetch diskRemoveAll (failingRemote (Foreign ''exit status 128''))
        ''git::https://example.com/org/repo.git//sub@file.yaml?ref=v1.0'' [] []
       = (Return ([], Some (Foreign ''exit status 128'')), [],
          [Get Generic ''/cache'' ''git::https://example.com/org/repo.git//sub?ref=v1.0''
             ''/cache/https_example_com_org_repo_git_sub.ref=v1.0'',
           RemoveAll ''/cache/https_example_com_org_repo_git_sub.ref=v1.0''])
   \<and> \<not> DirectoryExistsAt diskFS ''/cache/https_example_com_org_repo_git_sub.ref=v1.0'' []
   \<and> Fetch deniedRemoveAll (failingRemote (Foreign ''exit status 128''))
        ''git::https://example.com/org/repo.git//sub@file.yaml?ref=v1.0'' [] []
       = (Return ([], Some (multiError [Foreign ''exit status 128'',
                                        Foreign ''unlinkat: permission denied''])),
          [(''/cache/https_example_com_org_repo_git_sub.ref=v1.0'', IsDir)],
          [Get Generic ''/cache'' ''git::https://example.com/org/repo.git//sub?ref=v1.0''
             ''/cache/https_example_com_org_repo_git_sub.ref=v1.0'',
           RemoveAll ''/cache/https_example_com_org_repo_git_sub.ref=v1.0''])"
proof -
  let ?u = "\<lparr>Source.Getter = ''git'', Scheme = ''https'', User = [], Host = ''example.com'',
             Dir = ''/org/repo.git//sub'', File = ''file.yaml'', RawQuery = ''ref=v1.0''\<rparr>"
  let ?e = "Foreign ''exit status 128''"
  let ?r = "failingRemote ?e"
  let ?dst = "''/cache/https_example_com_org_repo_git_sub.ref=v1.0''"
  let ?src = "''git::https://example.com/org/repo.git//sub?ref=v1.0''"
  note p = Parse_git_descriptor
  have l: "length ([] :: string list) \<le> 1"
    by simp
  have d: "?dst = cacheDirPath ?r ?u (cacheBaseDir [])"
    by code_simp
  have s: "genericSrc ?u = ?src"
    by code_simp
  have h: "Home ?r = ''/cache''" and f: "fs ?r = diskFS"
    by (simp_all add: failingRemote_def)
  have nf: "\<not> FileExistsAt (fs ?r) ?dst []"
    by (simp add: f diskFS_def)
  have nc: "\<not> cached ?r ?u ?dst []"
    by (simp add: cached_def f diskFS_def)
  have g: "dispatch ?u = Generic"
    by (simp add: dispatch_def)
  have get: "Remote.Getter ?r (Home ?r) (genericSrc ?u) ?dst [] = (Some ?e, [(?dst, IsDir)])"
    by (simp add: failingRemote_def failingGetter_def)
  have rm1: "diskRemoveAll ?dst [(?dst, IsDir)] = (None, [])"
    by (simp add: diskRemoveAll_def)
  have rm2: "deniedRemoveAll ?dst [(?dst, IsDir)]
               = (Some (Foreign ''unlinkat: permission denied''), [(?dst, IsDir)])"
    by (simp add: deniedRemoveAll_def)
  have c1: "\<not> (\<exists>p v v'. diskRemoveAll p v = (None, v') \<and> DirectoryExistsAt (fs ?r) p v')"
    using diskRemoveAll_removes by (simp add: f)
  have c2: "\<not> (\<exists>p v v'. deniedRemoveAll p v = (None, v') \<and> DirectoryExistsAt (fs ?r) p v')"
    by (simp add: deniedRemoveAll_def)
  from Fetch_generic_failure_cleanup [OF p l d nf nc g get rm1 c1]
       Fetch_generic_failure_cleanup [OF p l d nf nc g get rm2 c2] p
  show ?thesis
    by (simp add: h f s multierr_Append_def)
qed

subsection \<open>The errors of Fetch in Locate\<close>

text \<open>
  Claim C4, as amended. For a reference that does not exist locally: when \<^verbatim>\<open>Fetch\<close>
  returns an \<^verbatim>\<open>InvalidURLError\<close>, \<^verbatim>\<open>Locate\<close> returns the reference unchanged and no
  error; when \<^verbatim>\<open>Fetch\<close> returns any other error, \<^verbatim>\<open>Locate\<close> returns that error
  and the empty path. \<^verbatim>\<open>Fetch\<close> returns an \<^verbatim>\<open>InvalidURLError\<close> in particular for
  every string that splits in two neither at \<^verbatim>\<open>::\<close> nor at \<^verbatim>\<open>://\<close> and in which
  \<^verbatim>\<open>url.Parse\<close> finds no scheme (or which it rejects).
\<close>

theorem Locate_fetch_error:
  assumes "\<not> FileExistsAt (fs r) ref w" and "\<not> DirectoryExistsAt (fs r) ref w"
  shows "(Fetch rm r ref cacheDirOpt w = (Return (p, Some err), w', evs) \<longrightarrow>
            Locate rm r ref cacheDirOpt w
              = (if is_InvalidURLError err then Return (ref, None) else Return ([], Some err), w', evs))
         \<and> (length (Split ref ''::'') \<noteq> 2 \<and> length (Split ref ''://'') \<noteq> 2
            \<and> (case url_Parse ref of Inl e \<Rightarrow> True | Inr u \<Rightarrow> URL_Scheme u = []) \<longrightarrow>
              (\<exists>m. Fetch rm r ref cacheDirOpt w = (Return ([], Some (InvalidURLError m)), w, []))
              \<and> Locate rm r ref cacheDirOpt w = (Return (ref, None), w, []))"
proof (intro conjI impI)
  assume "Fetch rm r ref cacheDirOpt w = (Return (p, Some err), w', evs)"
  with assms show "Locate rm r ref cacheDirOpt w
      = (if is_InvalidURLError err then Return (ref, None) else Return ([], Some err), w', evs)"
    by (simp add: Locate_def)
next
  assume a: "length (Split ref ''::'') \<noteq> 2 \<and> length (Split ref ''://'') \<noteq> 2
      \<and> (case url_Parse ref of Inl e \<Rightarrow> True | Inr u \<Rightarrow> URL_Scheme u = [])"
  then obtain m where "Parse ref = Return (Inl (InvalidURLError m))"
    using Parse_fallthrough [of ref] Parse_url_no_scheme [of ref "[]"] by auto
  then have f: "Fetch rm r ref cacheDirOpt w = (Return ([], Some (InvalidURLError m)), w, [])"
    by (simp add: Fetch_def)
  then show "\<exists>m. Fetch rm r ref cacheDirOpt w = (Return ([], Some (InvalidURLError m)), w, [])"
    by blast
  from f assms show "Locate rm r ref cacheDirOpt w = (Return (ref, None), w, [])"
    by (simp add: Locate_def)
qed

text \<open>
  The witness takes \<^verbatim>\<open>./relative/not-a-url\<close> for the \<^verbatim>\<open>InvalidURLError\<close> and
  \<^verbatim>\<open>ftp://host/a.yaml\<close> for another error.
\<close>

theorem Locate_fetch_error_witness:
  "\<not> FileExistsAt (fs testRemote) ''./relative/not-a-url'' []
   \<and> \<not> DirectoryExistsAt (fs testRemote) ''./relative/not-a-url'' []
   \<and> length (Split ''./relative/not-a-url'' ''::'') \<noteq> 2
   \<and> length (Split ''./relative/not-a-url'' ''://'') \<noteq> 2
   \<and> url_Parse ''./relative/not-a-url''
       = Inr \<lparr>URL_Scheme = [], URL_Opaque = [], URL_User = None, URL_Host = [],
               URL_Path = ''./relative/not-a-url'', URL_RawQuery = []\<rparr>
   \<and> Fetch diskRemoveAll testRemote ''./relative/not-a-url'' [] []
       = (Return ([], Some (InvalidURLError (missing_scheme ''./relative/not-a-url''))), [], [])
   \<and> Locate diskRemoveAll testRemote ''./relative/not-a-url'' [] []
       = (Return (''./relative/not-a-url'', None), [], [])
   \<and> \<not> FileExistsAt (fs testRemote) ''ftp://host/a.yaml'' []
   \<and> \<not> DirectoryExistsAt (fs testRemote) ''ftp://host/a.yaml'' []
   \<and> Fetch diskRemoveAll testRemote ''ftp://host/a.yaml'' [] []
       = (Return ([], Some (UnsupportedSchemeError ''ftp://host/a.yaml'')), [], [])
   \<and> Locate diskRemoveAll testRemote ''ftp://host/a.yaml'' [] []
       = (Return ([], Some (UnsupportedSchemeError ''ftp://host/a.yaml'')), [], [])"
proof -
  let ?l = "''./relative/not-a-url''" and ?f = "''ftp://host/a.yaml''"
  have n1: "\<not> FileExistsAt (fs testRemote) ?l []" and n2: "\<not> DirectoryExistsAt (fs testRemote) ?l []"
    and n3: "\<not> FileExistsAt (fs testRemote) ?f []" and n4: "\<not> DirectoryExistsAt (fs testRemote) ?f []"
    by (simp_all add: testRemote_def diskFS_def)
  have s1: "length (Split ?l ''::'') \<noteq> 2" and s2: "length (Split ?l ''://'') \<noteq> 2"
    by code_simp+
  have u: "url_Parse ?l = Inr \<lparr>URL_Scheme = [], URL_Opaque = [], URL_User = None, URL_Host = [],
               URL_Path = ?l, URL_RawQuery = []\<rparr>"
    by code_simp
  have f1: "Fetch diskRemoveAll testRemote ?l [] []
       = (Return ([], Some (InvalidURLError (missing_scheme ?l))), [], [])"
    by code_simp
  have f2: "Fetch diskRemoveAll testRemote ?f [] []
       = (Return ([], Some (UnsupportedSchemeError ?f)), [], [])"
    by code_simp
  have e: "\<not> is_InvalidURLError (UnsupportedSchemeError ?f)"
    by (simp add: UnsupportedSchemeError_def)
  from Locate_fetch_error [OF n1 n2, of diskRemoveAll "[]" "[]" "InvalidURLError (missing_scheme ?l)" "[]" "[]"]
       Locate_fetch_error [OF n3 n4, of diskRemoveAll "[]" "[]" "UnsupportedSchemeError ?f" "[]" "[]"]
       n1 n2 n3 n4 s1 s2 u f1 f2 e
  show ?thesis
    by simp
qed

text \<open>
  Without the condition on the two separators the claim fails. \<^verbatim>\<open>url.Parse\<close> finds
  no scheme in \<^verbatim>\<open>./a://b\<close>, but the string splits in two at \<^verbatim>\<open>://\<close>, so \<^verbatim>\<open>Parse\<close>
  hands it to \<^verbatim>\<open>ParseNormal\<close>, whose error is not an \<^verbatim>\<open>InvalidURLError\<close>, and
  \<^verbatim>\<open>Locate\<close> fails. Nor does it find one in \<^verbatim>\<open>./x::http://h/p\<close>, which splits in two
  at \<^verbatim>\<open>::\<close>: \<^verbatim>\<open>Parse\<close> takes \<^verbatim>\<open>./x\<close> for the getter, and \<^verbatim>\<open>Locate\<close> fetches
  \<^verbatim>\<open>http://h\<close> and returns a path in the cache.
\<close>

theorem Locate_fetch_error_counterexample:
  "url_Parse ''./a://b''
     = Inr \<lparr>URL_Scheme = [], URL_Opaque = [], URL_User = None, URL_Host = [],
             URL_Path = ''./a://b'', URL_RawQuery = []\<rparr>
   \<and> Fetch diskRemoveAll testRemote ''./a://b'' [] []
       = (Return ([], Some (Errorf ''failed to parse URL ./a://b'')), [], [])
   \<and> Locate diskRemoveAll testRemote ''./a://b'' [] []
       = (Return ([], Some (Errorf ''failed to parse URL ./a://b'')), [], [])
   \<and> url_Parse ''./x::http://h/p''
       = Inr \<lparr>URL_Scheme = [], URL_Opaque = [], URL_User = None, URL_Host = [],
               URL_Path = ''./x::http://h/p'', URL_RawQuery = []\<rparr>
   \<and> Locate diskRemoveAll testRemote ''./x::http://h/p'' [] []
       = (Return (''/cache/http_h/p'', None), [(''/cache/http_h'', IsDir)],
          [Get Generic ''/cache'' ''./x::http://h'' ''/cache/http_h''])"
  by code_simp

subsection \<open>Unsupported schemes\<close>

text \<open>
  Claim C8, as amended. A reference that does not split in two at \<^verbatim>\<open>::\<close> and that
  splits in exactly two at \<^verbatim>\<open>://\<close> (it holds \<^verbatim>\<open>://\<close> once), with the text before
  \<^verbatim>\<open>://\<close> in lower case not one of \<^verbatim>\<open>s3\<close>, \<^verbatim>\<open>http\<close>, \<^verbatim>\<open>https\<close>, makes \<^verbatim>\<open>Parse\<close>
  fail with the error of \<^verbatim>\<open>ParseNormalProtocol\<close>.
\<close>

theorem Parse_unsupported_scheme:
  assumes "length (Split ref ''::'') \<noteq> 2"
    and "Split ref ''://'' = [scheme, rest]"
    and "ToLower scheme \<notin> {''s3'', ''http'', ''https''}"
  shows "Parse ref = Return (Inl (UnsupportedSchemeError ref))"
  using assms by (simp add: Parse_def ParseNormal_def ParseNormalProtocol_def Let_def)

theorem Parse_unsupported_scheme_witness:
  "length (Split ''git://github.com/org/repo'' ''::'') \<noteq> 2
   \<and> Split ''git://github.com/org/repo'' ''://'' = [''git'', ''github.com/org/repo'']
   \<and> ToLower ''git'' \<notin> {''s3'', ''http'', ''https''}
   \<and> Parse ''git://github.com/org/repo'' = Return (Inl (Errorf ''failed to parse URL git://github.com/org/repo''))"
proof -
  have a: "length (Split ''git://github.com/org/repo'' ''::'') \<noteq> 2"
    by code_simp
  have b: "Split ''git://github.com/org/repo'' ''://'' = [''git'', ''github.com/org/repo'']"
    by code_simp
  have c: "ToLower ''git'' \<notin> {''s3'', ''http'', ''https''}"
    by code_simp
  from Parse_unsupported_scheme [OF a b c] a b c show ?thesis
    by (simp add: UnsupportedSchemeError_def)
qed

text \<open>
  A reference that holds \<^verbatim>\<open>://\<close> twice splits in three: \<^verbatim>\<open>Parse\<close> goes on to
  \<^verbatim>\<open>url.Parse\<close> and succeeds, whatever the scheme.
\<close>

theorem Parse_unsupported_scheme_counterexample:
  "Split ''git://host/a?u=x://y'' ''::'' = [''git://host/a?u=x://y'']
   \<and> Parse ''git://host/a?u=x://y''
       = Return (Inr \<lparr>Source.Getter = [], Scheme = ''git'', User = [], Host = ''host'',
                       Dir = [], File = ''a'', RawQuery = ''u=x://y''\<rparr>)"
  by code_simp

subsection \<open>Fetching twice\<close>

text \<open>
  Claim C1, as amended. Let every strategy that succeeds leave a directory, and no
  plain file, at its destination. If \<^verbatim>\<open>Fetch\<close> succeeds, then the same call on the
  world it left succeeds again with the same path, calls no strategy and changes
  nothing. The two calls together make one \<^verbatim>\<open>Get\<close> call when the first one missed
  the cache, and none when it hit. (\<open>u\<close> names the descriptor of the reference; a
  successful \<^verbatim>\<open>Fetch\<close> has parsed it.)
\<close>

theorem Fetch_twice:
  assumes contract: "\<And>g wd src dst v v'. g \<in> {Remote.Getter r, S3Getter r, HttpGetter r}
             \<Longrightarrow> g wd src dst v = (None, v')
             \<Longrightarrow> DirectoryExistsAt (fs r) dst v' \<and> \<not> FileExistsAt (fs r) dst v'"
    and parsed: "Parse path = Return (Inr u)"
    and first: "Fetch rm r path cacheDirOpt w = (Return (p, None), w1, evs1)"
  shows "Fetch rm r path cacheDirOpt w1 = (Return (p, None), w1, [])
       \<and> GetCalls (evs1 @ snd (snd (Fetch rm r path cacheDirOpt w1))) = (if cached r u (cacheDirPath r u (cacheBaseDir cacheDirOpt)) w then 0 else 1)"
proof -
  let ?dst = "cacheDirPath r u (cacheBaseDir cacheDirOpt)"
  have le: "length cacheDirOpt \<le> 1"
  proof (rule ccontr)
    assume "\<not> length cacheDirOpt \<le> 1"
    then have "length cacheDirOpt \<noteq> 1 \<and> 0 < length cacheDirOpt" by auto
    with first show False by (simp add: Fetch_parsed [OF parsed])
  qed
  note unfold = Fetch_at_most_one_override [OF parsed le]
  from first have nofile: "\<not> FileExistsAt (fs r) ?dst w"
    by (auto simp add: unfold split: if_splits)
  show ?thesis
  proof (cases "cached r u ?dst w")
    case True
    with first nofile have "p = filepath_Join [?dst, File u]" "w1 = w" "evs1 = []"
      by (simp_all add: unfold)
    with True nofile show ?thesis
      by (simp add: unfold GetCalls_def)
  next
    case False
    with first nofile have d: "download rm r path u ?dst w = (Return (p, None), w1, evs1)"
      by (simp add: unfold)
    from download_success [OF d] obtain g wd src
      where p: "p = filepath_Join [?dst, File u]" and n: "GetCalls evs1 = 1"
        and g: "g \<in> {Remote.Getter r, S3Getter r, HttpGetter r}" "g wd src ?dst w = (None, w1)"
      by blast
    from contract [OF g] have "DirectoryExistsAt (fs r) ?dst w1" "\<not> FileExistsAt (fs r) ?dst w1"
      by simp_all
    with p n False show ?thesis
      by (simp add: unfold cached_def)
  qed
qed

theorem Fetch_twice_witness:
  "Parse ''s3://my-bucket/path/to/object.yaml''
     = Return (Inr \<lparr>Source.Getter = ''normal'', Scheme = ''s3'', User = [], Host = ''my-bucket'',
                     Dir = ''/path/to'', File = ''object.yaml'', RawQuery = []\<rparr>)
   \<and> Fetch diskRemoveAll testRemote ''s3://my-bucket/path/to/object.yaml'' [] []
       = (Return (''/cache/s3_my-bucket_path_to/object.yaml'', None),
          [(''/cache/s3_my-bucket_path_to'', IsDir)],
          [Get S3 ''/cache'' ''s3://my-bucket/path/to/object.yaml'' ''/cache/s3_my-bucket_path_to''])
   \<and> Fetch diskRemoveAll testRemote ''s3://my-bucket/path/to/object.yaml'' []
        [(''/cache/s3_my-bucket_path_to'', IsDir)]
       = (Return (''/cache/s3_my-bucket_path_to/object.yaml'', None),
          [(''/cache/s3_my-bucket_path_to'', IsDir)], [])
   \<and> GetCalls ([Get S3 ''/cache'' ''s3://my-bucket/path/to/object.yaml'' ''/cache/s3_my-bucket_path_to'']
                 @ snd (snd (Fetch diskRemoveAll testRemote ''s3://my-bucket/path/to/object.yaml'' []
                               [(''/cache/s3_my-bucket_path_to'', IsDir)]))) = 1"
proof -
  let ?u = "\<lparr>Source.Getter = ''normal'', Scheme = ''s3'', User = [], Host = ''my-bucket'',
             Dir = ''/path/to'', File = ''object.yaml'', RawQuery = []\<rparr>"
  let ?ref = "''s3://my-bucket/path/to/object.yaml''"
  let ?dst = "''/cache/s3_my-bucket_path_to''"
  note p = Parse_s3_example
  have c: "DirectoryExistsAt (fs testRemote) dst v' \<and> \<not> FileExistsAt (fs testRemote) dst v'"
    if "g \<in> {Remote.Getter testRemote, S3Getter testRemote, HttpGetter testRemote}"
      and "g wd src dst v = (None, v')" for g wd src dst v v'
    using that mkdirGetter_creates [of wd src dst v v'] by (simp add: testRemote_def)
  have f: "Fetch diskRemoveAll testRemote ?ref [] []
       = (Return (''/cache/s3_my-bucket_path_to/object.yaml'', None), [(?dst, IsDir)],
          [Get S3 ''/cache'' ?ref ?dst])"
    by code_simp
  have n: "\<not> cached testRemote ?u (cacheDirPath testRemote ?u (cacheBaseDir [])) []"
    by (simp add: cached_def testRemote_def diskFS_def)
  from Fetch_twice [of testRemote, OF c p f] p f n show ?thesis
    by (simp add: GetCalls_def)
qed

text \<open>
  The claim as stated fails in two ways. On a warm cache the first call is a hit, and
  the two calls make no \<^verbatim>\<open>Get\<close> call at all, not one. And a strategy that succeeds
  without creating its destination (as the getter of the tests does) is called again
  by the second call: two \<^verbatim>\<open>Get\<close> calls.
\<close>

theorem Fetch_twice_counterexample:
  "Fetch diskRemoveAll testRemote ''s3://my-bucket/path/to/object.yaml'' []
     [(''/cache/s3_my-bucket_path_to'', IsDir)]
     = (Return (''/cache/s3_my-bucket_path_to/object.yaml'', None),
        [(''/cache/s3_my-bucket_path_to'', IsDir)], [])
   \<and> GetCalls (snd (snd (Fetch diskRemoveAll testRemote ''s3://my-bucket/path/to/object.yaml'' []
                            [(''/cache/s3_my-bucket_path_to'', IsDir)]))
               @ snd (snd (Fetch diskRemoveAll testRemote ''s3://my-bucket/path/to/object.yaml'' []
                            [(''/cache/s3_my-bucket_path_to'', IsDir)]))) = 0
   \<and> Fetch diskRemoveAll idleRemote ''s3://my-bucket/path/to/object.yaml'' [] []
       = (Return (''/cache/s3_my-bucket_path_to/object.yaml'', None), [],
          [Get S3 ''/cache'' ''s3://my-bucket/path/to/object.yaml'' ''/cache/s3_my-bucket_path_to''])
   \<and> GetCalls (snd (snd (Fetch diskRemoveAll idleRemote ''s3://my-bucket/path/to/object.yaml'' [] []))
               @ snd (snd (Fetch diskRemoveAll idleRemote ''s3://my-bucket/path/to/object.yaml'' [] []))) = 2"
  by code_simp

subsection \<open>The secret of the query\<close>

text \<open>
  Claim C2, as amended. Take two references that parse, to descriptors that are the
  same but for the value of the \<^verbatim>\<open>sshkey\<close> parameter of the raw query: the query is
  \<open>pre @ "sshkey=" @ v @ post\<close>, where the parameter starts the query or follows a
  \<^verbatim>\<open>&\<close> and ends the query or is followed by a \<^verbatim>\<open>&\<close>. If neither value holds a
  \<^verbatim>\<open>&\<close> or a \<^verbatim>\<open>;\<close> and both unescape as query components, the cache keys are equal,
  and so are the cache paths; once the entry is cached, \<^verbatim>\<open>Fetch\<close> makes no difference
  between the two references.
\<close>

theorem cacheKey_ignores_sshkey_value:
  assumes "Parse ref1 = Return (Inr u1)"
    and "Parse ref2 = Return (Inr u2)"
    and "RawQuery u1 = pre @ ''sshkey='' @ v1 @ post"
    and "u2 = u1\<lparr>RawQuery := pre @ ''sshkey='' @ v2 @ post\<rparr>"
    and "pre = [] \<or> last pre = CHR ''&''"
    and "post = [] \<or> hd post = CHR ''&''"
    and "CHR ''&'' \<notin> set v1 \<union> set v2"
    and "CHR '';'' \<notin> set v1 \<union> set v2"
    and "QueryUnescape v1 = Inr w1"
    and "QueryUnescape v2 = Inr w2"
  shows "cacheKey u1 = cacheKey u2
       \<and> cacheDirPath r u1 (cacheBaseDir cacheDirOpt) = cacheDirPath r u2 (cacheBaseDir cacheDirOpt)
       \<and> (cached r u1 (cacheDirPath r u1 (cacheBaseDir cacheDirOpt)) w
            \<longrightarrow> Fetch rm r ref1 cacheDirOpt w = Fetch rm r ref2 cacheDirOpt w)"
proof -
  have k: "cacheKey u1 = cacheKey u2"
    by (rule cacheKey_sshkey [OF assms(3-10)])
  then have d: "getterDst u2 (cacheBaseDir cacheDirOpt) = getterDst u1 (cacheBaseDir cacheDirOpt)"
    and c: "cacheDirPath r u2 (cacheBaseDir cacheDirOpt) = cacheDirPath r u1 (cacheBaseDir cacheDirOpt)"
    by (simp_all add: cacheDirPath_def getterDst_def)
  from assms(4) have f: "File u2 = File u1" "Source.Getter u2 = Source.Getter u1"
    by simp_all
  then have h: "cached r u2 dst w = cached r u1 dst w" for dst
    by (simp add: cached_def)
  have "Fetch rm r ref1 cacheDirOpt w = Fetch rm r ref2 cacheDirOpt w"
    if "cached r u1 (cacheDirPath r u1 (cacheBaseDir cacheDirOpt)) w"
    unfolding Fetch_parsed [OF assms(1)] Fetch_parsed [OF assms(2)] c d h f
    using that by auto
  with k c show ?thesis
    by simp
qed

theorem cacheKey_ignores_sshkey_value_witness:
  "Parse ''git::ssh://git@h/r.git?ref=1&sshkey=QUJD&depth=1''
     = Return (Inr \<lparr>Source.Getter = ''git'', Scheme = ''ssh'', User = ''git'', Host = ''h'',
                     Dir = [], File = ''r.git'', RawQuery = ''ref=1&sshkey=QUJD&depth=1''\<rparr>)
   \<and> Parse ''git::ssh://git@h/r.git?ref=1&sshkey=WFla%3D&depth=1''
     = Return (Inr \<lparr>Source.Getter = ''git'', Scheme = ''ssh'', User = ''git'', Host = ''h'',
                     Dir = [], File = ''r.git'', RawQuery = ''ref=1&sshkey=WFla%3D&depth=1''\<rparr>)
   \<and> QueryUnescape ''QUJD'' = Inr ''QUJD''
   \<and> QueryUnescape ''WFla%3D'' = Inr ''WFla=''
   \<and> cacheKey \<lparr>Source.Getter = ''git'', Scheme = ''ssh'', User = ''git'', Host = ''h'',
                 Dir = [], File = ''r.git'', RawQuery = ''ref=1&sshkey=QUJD&depth=1''\<rparr>
       = ''ssh_h.depth=1_ref=1_sshkey=redacted''
   \<and> cacheKey \<lparr>Source.Getter = ''git'', Scheme = ''ssh'', User = ''git'', Host = ''h'',
                 Dir = [], File = ''r.git'', RawQuery = ''ref=1&sshkey=WFla%3D&depth=1''\<rparr>
       = ''ssh_h.depth=1_ref=1_sshkey=redacted''
   \<and> cacheDirPath testRemote
         \<lparr>Source.Getter = ''git'', Scheme = ''ssh'', User = ''git'', Host = ''h'',
           Dir = [], File = ''r.git'', RawQuery = ''ref=1&sshkey=WFla%3D&depth=1''\<rparr> (cacheBaseDir [])
       = ''/cache/ssh_h.depth=1_ref=1_sshkey=redacted''
   \<and> Fetch diskRemoveAll testRemote ''git::ssh://git@h/r.git?ref=1&sshkey=QUJD&depth=1'' []
        [(''/cache/ssh_h.depth=1_ref=1_sshkey=redacted'', IsDir)]
       = (Return (''/cache/ssh_h.depth=1_ref=1_sshkey=redacted/r.git'', None),
          [(''/cache/ssh_h.depth=1_ref=1_sshkey=redacted'', IsDir)], [])
   \<and> Fetch diskRemoveAll testRemote ''git::ssh://git@h/r.git?ref=1&sshkey=WFla%3D&depth=1'' []
        [(''/cache/ssh_h.depth=1_ref=1_sshkey=redacted'', IsDir)]
       = (Return (''/cache/ssh_h.depth=1_ref=1_sshkey=redacted/r.git'', None),
          [(''/cache/ssh_h.depth=1_ref=1_sshkey=redacted'', IsDir)], [])"
proof -
  let ?u1 = "\<lparr>Source.Getter = ''git'', Scheme = ''ssh'', User = ''git'', Host = ''h'',
             Dir = [], File = ''r.git'', RawQuery = ''ref=1&sshkey=QUJD&depth=1''\<rparr>"
  let ?u2 = "\<lparr>Source.Getter = ''git'', Scheme = ''ssh'', User = ''git'', Host = ''h'',
             Dir = [], File = ''r.git'', RawQuery = ''ref=1&sshkey=WFla%3D&depth=1''\<rparr>"
  let ?d = "[(''/cache/ssh_h.depth=1_ref=1_sshkey=redacted'', IsDir)]"
  have p1: "Parse ''git::ssh://git@h/r.git?ref=1&sshkey=QUJD&depth=1'' = Return (Inr ?u1)"
    by code_simp
  have p2: "Parse ''git::ssh://git@h/r.git?ref=1&sshkey=WFla%3D&depth=1'' = Return (Inr ?u2)"
    by code_simp
  have q1: "RawQuery ?u1 = ''ref=1&'' @ ''sshkey='' @ ''QUJD'' @ ''&depth=1''"
    by simp
  have q2: "?u2 = ?u1\<lparr>RawQuery := ''ref=1&'' @ ''sshkey='' @ ''WFla%3D'' @ ''&depth=1''\<rparr>"
    by simp
  have a: "''ref=1&'' = [] \<or> last ''ref=1&'' = CHR ''&''"
    and b: "''&depth=1'' = [] \<or> hd ''&depth=1'' = CHR ''&''"
    and c: "CHR ''&'' \<notin> set ''QUJD'' \<union> set ''WFla%3D''"
    and d: "CHR '';'' \<notin> set ''QUJD'' \<union> set ''WFla%3D''"
    by simp_all
  have e1: "QueryUnescape ''QUJD'' = Inr ''QUJD''"
    and e2: "QueryUnescape ''WFla%3D'' = Inr ''WFla=''"
    by code_simp+
  have k: "cacheKey ?u1 = ''ssh_h.depth=1_ref=1_sshkey=redacted''"
    by code_simp
  have p: "cacheDirPath testRemote ?u1 (cacheBaseDir []) = ''/cache/ssh_h.depth=1_ref=1_sshkey=redacted''"
    by code_simp
  have h: "cached testRemote ?u1 ''/cache/ssh_h.depth=1_ref=1_sshkey=redacted'' ?d"
    by (simp add: cached_def testRemote_def diskFS_def)
  have f: "Fetch diskRemoveAll testRemote ''git::ssh://git@h/r.git?ref=1&sshkey=QUJD&depth=1'' [] ?d
       = (Return (''/cache/ssh_h.depth=1_ref=1_sshkey=redacted/r.git'', None), ?d, [])"
    by code_simp
  note t = cacheKey_ignores_sshkey_value [OF p1 p2 q1 q2 a b c d e1 e2, of testRemote "[]" ?d diskRemoveAll]
  from t have "cacheKey ?u1 = cacheKey ?u2"
    by (rule conjunct1)
  with k have k2: "cacheKey ?u2 = ''ssh_h.depth=1_ref=1_sshkey=redacted''"
    by simp
  from t have "cacheDirPath testRemote ?u1 (cacheBaseDir []) = cacheDirPath testRemote ?u2 (cacheBaseDir [])"
    by (rule conjunct1 [OF conjunct2])
  with p have p': "cacheDirPath testRemote ?u2 (cacheBaseDir []) = ''/cache/ssh_h.depth=1_ref=1_sshkey=redacted''"
    by simp
  from t have "cached testRemote ?u1 (cacheDirPath testRemote ?u1 (cacheBaseDir [])) ?d
      \<longrightarrow> Fetch diskRemoveAll testRemote ''git::ssh://git@h/r.git?ref=1&sshkey=QUJD&depth=1'' [] ?d
        = Fetch diskRemoveAll testRemote ''git::ssh://git@h/r.git?ref=1&sshkey=WFla%3D&depth=1'' [] ?d"
    by (rule conjunct2 [OF conjunct2])
  moreover have "cached testRemote ?u1 (cacheDirPath testRemote ?u1 (cacheBaseDir [])) ?d"
    unfolding p by (rule h)
  ultimately have "Fetch diskRemoveAll testRemote ''git::ssh://git@h/r.git?ref=1&sshkey=QUJD&depth=1'' [] ?d
      = Fetch diskRemoveAll testRemote ''git::ssh://git@h/r.git?ref=1&sshkey=WFla%3D&depth=1'' [] ?d"
    by (rule mp)
  from this [symmetric] f
  have f': "Fetch diskRemoveAll testRemote ''git::ssh://git@h/r.git?ref=1&sshkey=WFla%3D&depth=1'' [] ?d
       = (Return (''/cache/ssh_h.depth=1_ref=1_sshkey=redacted/r.git'', None), ?d, [])"
    by (rule trans)
  from p1 p2 e1 e2 k k2 p' f f' show ?thesis
    by (intro conjI)
qed

text \<open>
  A value that \<^verbatim>\<open>url.ParseQuery\<close> rejects is dropped with its parameter, and
  \<^verbatim>\<open>Fetch\<close> ignores the error: the key of \<^verbatim>\<open>sshkey=a;c\<close> has no \<^verbatim>\<open>sshkey\<close> at all,
  so it is not the key of \<^verbatim>\<open>sshkey=abc\<close>.
\<close>

theorem cacheKey_ignores_sshkey_value_counterexample:
  "Parse ''git::ssh://git@h/r.git?sshkey=abc''
     = Return (Inr \<lparr>Source.Getter = ''git'', Scheme = ''ssh'', User = ''git'', Host = ''h'',
                     Dir = [], File = ''r.git'', RawQuery = ''sshkey=abc''\<rparr>)
   \<and> Parse ''git::ssh://git@h/r.git?sshkey=a;c''
     = Return (Inr \<lparr>Source.Getter = ''git'', Scheme = ''ssh'', User = ''git'', Host = ''h'',
                     Dir = [], File = ''r.git'', RawQuery = ''sshkey=a;c''\<rparr>)
   \<and> cacheKey \<lparr>Source.Getter = ''git'', Scheme = ''ssh'', User = ''git'', Host = ''h'',
                 Dir = [], File = ''r.git'', RawQuery = ''sshkey=abc''\<rparr> = ''ssh_h.sshkey=redacted''
   \<and> cacheKey \<lparr>Source.Getter = ''git'', Scheme = ''ssh'', User = ''git'', Host = ''h'',
                 Dir = [], File = ''r.git'', RawQuery = ''sshkey=a;c''\<rparr> = ''ssh_h.''
   \<and> cacheDirPath testRemote
         \<lparr>Source.Getter = ''git'', Scheme = ''ssh'', User = ''git'', Host = ''h'',
           Dir = [], File = ''r.git'', RawQuery = ''sshkey=abc''\<rparr> (cacheBaseDir [])
       = ''/cache/ssh_h.sshkey=redacted''
   \<and> cacheDirPath testRemote
         \<lparr>Source.Getter = ''git'', Scheme = ''ssh'', User = ''git'', Host = ''h'',
           Dir = [], File = ''r.git'', RawQuery = ''sshkey=a;c''\<rparr> (cacheBaseDir [])
       = ''/cache/ssh_h.''"
  by code_simp

text \<open>
  For references of the usual form \<open>x?query\<close> the hypothesis on the descriptors follows
  from the references: let \<open>x\<close> hold no \<^verbatim>\<open>?\<close> and no \<^verbatim>\<open>#\<close>, and the query no colon,
  no \<^verbatim>\<open>#\<close> and no control byte. Then two such references that differ only in the value
  of \<^verbatim>\<open>sshkey\<close> parse together, and to the same cache key.
\<close>

theorem cacheKey_of_references:
  assumes "CHR ''?'' \<notin> set x" and "CHR ''#'' \<notin> set x"
    and "q1 = pre @ ''sshkey='' @ v1 @ post" and "q2 = pre @ ''sshkey='' @ v2 @ post"
    and "CHR '':'' \<notin> set (pre @ v1 @ v2 @ post)"
    and "CHR ''#'' \<notin> set (pre @ v1 @ v2 @ post)"
    and "\<not> stringContainsCTLByte (pre @ v1 @ v2 @ post)"
    and "pre = [] \<or> last pre = CHR ''&''"
    and "post = [] \<or> hd post = CHR ''&''"
    and "CHR ''&'' \<notin> set v1 \<union> set v2"
    and "CHR '';'' \<notin> set v1 \<union> set v2"
    and "QueryUnescape v1 = Inr w1"
    and "QueryUnescape v2 = Inr w2"
    and "Parse (x @ ''?'' @ q1) = Return (Inr u1)"
  shows "\<exists>u2. Parse (x @ ''?'' @ q2) = Return (Inr u2) \<and> cacheKey u1 = cacheKey u2"
proof -
  from assms(3-7) have c: "CHR ''#'' \<notin> set q1" "\<not> stringContainsCTLByte q1" "CHR '':'' \<notin> set q1"
      "CHR ''#'' \<notin> set q2" "\<not> stringContainsCTLByte q2" "CHR '':'' \<notin> set q2"
    by (auto simp add: stringContainsCTLByte_def)
  from assms(14) have "Parse (x @ CHR ''?'' # q1) = Return (Inr u1)" by simp
  from Parse_query [OF assms(1,2) c this]
  have p2: "Parse (x @ CHR ''?'' # q2) = Return (Inr (u1\<lparr>RawQuery := q2\<rparr>))" and r: "RawQuery u1 = q1"
    by simp_all
  from r assms(3) have r1: "RawQuery u1 = pre @ ''sshkey='' @ v1 @ post" by simp
  from assms(4) have r2: "u1\<lparr>RawQuery := q2\<rparr> = u1\<lparr>RawQuery := pre @ ''sshkey='' @ v2 @ post\<rparr>" by simp
  from cacheKey_sshkey [OF r1 r2 assms(8-13)] p2 show ?thesis by simp
qed

end
